theory Spec2Isabelle
  imports Complex_Main
begin

section \<open>JavaScript numbers\<close>

text \<open>
  The zoom mixin computes with JavaScript numbers. They are modelled as the real
  numbers together with the three special values of IEEE arithmetic. Arithmetic on
  finite values is exact (rounding and overflow are left out) and a zero has no sign:
  a division of a non-zero finite number by zero gives the infinity with the sign of the
  dividend.
\<close>

datatype jsnum = Fin real | PInf | NInf | NaN

fun isNaN :: "jsnum \<Rightarrow> bool" where
  "isNaN NaN = True"
| "isNaN _ = False"

fun isFinite :: "jsnum \<Rightarrow> bool" where
  "isFinite (Fin _) = True"
| "isFinite _ = False"

text \<open>Truthiness, as used by \<^verbatim>\<open>x || 0\<close> and by \<^verbatim>\<open>c ? a : b\<close>: 0 and NaN are falsy.\<close>

fun truthy :: "jsnum \<Rightarrow> bool" where
  "truthy (Fin r) = (r \<noteq> 0)"
| "truthy NaN = False"
| "truthy _ = True"

fun jsgn :: "jsnum \<Rightarrow> int" where
  "jsgn (Fin r) = (if r = 0 then 0 else if 0 < r then 1 else - 1)"
| "jsgn PInf = 1"
| "jsgn NInf = - 1"
| "jsgn NaN = 0"

fun jneg :: "jsnum \<Rightarrow> jsnum" where
  "jneg (Fin r) = Fin (- r)"
| "jneg PInf = NInf"
| "jneg NInf = PInf"
| "jneg NaN = NaN"

fun jadd :: "jsnum \<Rightarrow> jsnum \<Rightarrow> jsnum" where
  "jadd NaN _ = NaN"
| "jadd _ NaN = NaN"
| "jadd (Fin a) (Fin b) = Fin (a + b)"
| "jadd PInf NInf = NaN"
| "jadd NInf PInf = NaN"
| "jadd PInf _ = PInf"
| "jadd NInf _ = NInf"
| "jadd _ PInf = PInf"
| "jadd _ NInf = NInf"

definition jsub :: "jsnum \<Rightarrow> jsnum \<Rightarrow> jsnum" where
  "jsub a b = jadd a (jneg b)"

fun jmul :: "jsnum \<Rightarrow> jsnum \<Rightarrow> jsnum" where
  "jmul NaN _ = NaN"
| "jmul _ NaN = NaN"
| "jmul (Fin a) (Fin b) = Fin (a * b)"
| "jmul a b =
     (if jsgn a = 0 \<or> jsgn b = 0 then NaN
      else if jsgn a = jsgn b then PInf else NInf)"

fun jdiv :: "jsnum \<Rightarrow> jsnum \<Rightarrow> jsnum" where
  "jdiv NaN _ = NaN"
| "jdiv _ NaN = NaN"
| "jdiv (Fin a) (Fin b) =
     (if b \<noteq> 0 then Fin (a / b)
      else if a = 0 then NaN
      else if 0 < a then PInf else NInf)"
| "jdiv (Fin a) _ = Fin 0"
| "jdiv PInf (Fin b) = (if 0 \<le> b then PInf else NInf)"
| "jdiv NInf (Fin b) = (if 0 \<le> b then NInf else PInf)"
| "jdiv _ _ = NaN"

text \<open>The comparisons \<^verbatim>\<open><\<close> and \<^verbatim>\<open><=\<close>: false as soon as one side is NaN.\<close>

fun jlt :: "jsnum \<Rightarrow> jsnum \<Rightarrow> bool" where
  "jlt NaN _ = False"
| "jlt _ NaN = False"
| "jlt (Fin a) (Fin b) = (a < b)"
| "jlt PInf _ = False"
| "jlt _ NInf = False"
| "jlt _ _ = True"

fun jle :: "jsnum \<Rightarrow> jsnum \<Rightarrow> bool" where
  "jle NaN _ = False"
| "jle _ NaN = False"
| "jle a b = (\<not> jlt b a)"

text \<open>\<^verbatim>\<open>Math.max\<close> and \<^verbatim>\<open>Math.min\<close> of two arguments: NaN if one argument is NaN.\<close>

definition jmax :: "jsnum \<Rightarrow> jsnum \<Rightarrow> jsnum" where
  "jmax a b = (if isNaN a \<or> isNaN b then NaN else if jlt a b then b else a)"

definition jmin :: "jsnum \<Rightarrow> jsnum \<Rightarrow> jsnum" where
  "jmin a b = (if isNaN a \<or> isNaN b then NaN else if jlt b a then b else a)"

text \<open>
  \<^verbatim>\<open>v || 0\<close> for a property \<open>v\<close> of type \<^verbatim>\<open>number | undefined\<close>: \<open>None\<close> is
  \<^verbatim>\<open>undefined\<close>.
\<close>

fun orZero :: "jsnum option \<Rightarrow> jsnum" where
  "orZero None = Fin 0"
| "orZero (Some v) = (if truthy v then v else Fin 0)"

section \<open>The d3 functions the mixin calls\<close>

text \<open>
  \<^verbatim>\<open>scaleLinear\<close>, \<^verbatim>\<open>zoomIdentity\<close> and \<^verbatim>\<open>zoom\<close> come from the d3 library
  (version 7). Their behaviour is written out here as far as the mixin depends on it: a
  two-point continuous scale without clamping (d3-scale), the zoom transform and the zoom
  behaviour (d3-zoom). Each definition names the function of the library it follows.
\<close>

record scaleLinear =
  dom0 :: jsnum
  dom1 :: jsnum
  rng0 :: jsnum
  rng1 :: jsnum

text \<open>d3-scale, \<^verbatim>\<open>normalize(a, b)\<close>:
  \<^verbatim>\<open>(b -= (a = +a)) ? x => (x - a) / b : constant(isNaN(b) ? NaN : 0.5)\<close>.\<close>

definition normalize :: "jsnum \<Rightarrow> jsnum \<Rightarrow> jsnum \<Rightarrow> jsnum" where
  "normalize a b xv =
     (let d = jsub b a in
      if truthy d then jdiv (jsub xv a) d
      else if isNaN d then NaN else Fin (1 / 2))"

text \<open>d3-interpolate, \<^verbatim>\<open>interpolateNumber(a, b)\<close>: \<^verbatim>\<open>t => a * (1 - t) + b * t\<close>.\<close>

definition interpolateNumber :: "jsnum \<Rightarrow> jsnum \<Rightarrow> jsnum \<Rightarrow> jsnum" where
  "interpolateNumber a b t = jadd (jmul a (jsub (Fin 1) t)) (jmul b t)"

text \<open>d3-scale, \<^verbatim>\<open>bimap(domain, range, interpolate)\<close> for a domain \<open>[d0, d1]\<close> and a
  range \<open>[r0, r1]\<close>: for \<^verbatim>\<open>d1 < d0\<close> it composes \<^verbatim>\<open>normalize(d1, d0)\<close> with
  \<^verbatim>\<open>interpolate(r1, r0)\<close>, otherwise \<^verbatim>\<open>normalize(d0, d1)\<close> with
  \<^verbatim>\<open>interpolate(r0, r1)\<close>. \<^verbatim>\<open>scale.invert\<close> is the same map with domain and range
  exchanged.\<close>

definition bimap :: "jsnum \<Rightarrow> jsnum \<Rightarrow> jsnum \<Rightarrow> jsnum \<Rightarrow> jsnum \<Rightarrow> jsnum" where
  "bimap d0 d1 r0 r1 xv =
     (if jlt d1 d0 then interpolateNumber r1 r0 (normalize d1 d0 xv)
      else interpolateNumber r0 r1 (normalize d0 d1 xv))"

text \<open>
  Calling the scale, \<^verbatim>\<open>scale(x)\<close>. For a NaN argument d3 returns \<^verbatim>\<open>undefined\<close>,
  which every caller in the mixin at once uses in arithmetic, where it is NaN.
\<close>

definition scaleApply :: "scaleLinear \<Rightarrow> jsnum \<Rightarrow> jsnum" where
  "scaleApply s xv =
     (if isNaN xv then NaN else bimap (dom0 s) (dom1 s) (rng0 s) (rng1 s) xv)"

definition scaleInvert :: "scaleLinear \<Rightarrow> jsnum \<Rightarrow> jsnum" where
  "scaleInvert s yv = bimap (rng0 s) (rng1 s) (dom0 s) (dom1 s) yv"

text \<open>\<^verbatim>\<open>scale.copy()\<close>: a scale with the same domain and range.\<close>

definition scaleCopy :: "scaleLinear \<Rightarrow> scaleLinear" where
  "scaleCopy s = \<lparr>dom0 = dom0 s, dom1 = dom1 s, rng0 = rng0 s, rng1 = rng1 s\<rparr>"

record transform =
  tk :: jsnum
  tx :: jsnum
  ty :: jsnum

definition zoomIdentity :: transform where
  "zoomIdentity = \<lparr>tk = Fin 1, tx = Fin 0, ty = Fin 0\<rparr>"

text \<open>d3-zoom, \<^verbatim>\<open>transform.scale(k)\<close>:
  \<^verbatim>\<open>k === 1 ? this : new Transform(this.k * k, this.x, this.y)\<close>.\<close>

definition tscale :: "transform \<Rightarrow> jsnum \<Rightarrow> transform" where
  "tscale t kv =
     (if kv = Fin 1 then t else \<lparr>tk = jmul (tk t) kv, tx = tx t, ty = ty t\<rparr>)"

text \<open>d3-zoom, \<^verbatim>\<open>transform.translate(x, y)\<close>:
  \<^verbatim>\<open>x === 0 & y === 0 ? this : new Transform(this.k, this.x + this.k * x, this.y + this.k * y)\<close>.\<close>

definition ttranslate :: "transform \<Rightarrow> jsnum \<Rightarrow> jsnum \<Rightarrow> transform" where
  "ttranslate t xv yv =
     (if xv = Fin 0 \<and> yv = Fin 0 then t
      else \<lparr>tk = tk t, tx = jadd (tx t) (jmul (tk t) xv),
            ty = jadd (ty t) (jmul (tk t) yv)\<rparr>)"

text \<open>d3-zoom, \<^verbatim>\<open>transform.invertX(x)\<close>: \<^verbatim>\<open>(x - this.x) / this.k\<close>.\<close>

definition invertX :: "transform \<Rightarrow> jsnum \<Rightarrow> jsnum" where
  "invertX t xv = jdiv (jsub xv (tx t)) (tk t)"

text \<open>d3-zoom, \<^verbatim>\<open>transform.rescaleX(x)\<close>:
  \<^verbatim>\<open>x.copy().domain(x.range().map(this.invertX, this).map(x.invert, x))\<close>.\<close>

definition rescaleX :: "transform \<Rightarrow> scaleLinear \<Rightarrow> scaleLinear" where
  "rescaleX t s =
     (scaleCopy s)\<lparr>dom0 := scaleInvert s (invertX t (rng0 s)),
                   dom1 := scaleInvert s (invertX t (rng1 s))\<rparr>"

text \<open>
  The zoom behaviour \<^verbatim>\<open>d3zoom()\<close> with the three settings the mixin makes. The
  listener of its \<^verbatim>\<open>zoom\<close> event is always the mixin's \<^verbatim>\<open>zoomed\<close>.
\<close>

record zoomBehavior =
  scaleExtent :: "jsnum \<times> jsnum"
  translateExtent :: "(jsnum \<times> jsnum) \<times> (jsnum \<times> jsnum)"
  extent :: "(jsnum \<times> jsnum) \<times> (jsnum \<times> jsnum)"

text \<open>
  An element of a d3 selection: its \<^verbatim>\<open>__zoom\<close> property (the element's current zoom
  transform) and whether the gesture listeners of the zoom behaviour are attached.
\<close>

record node =
  zoomProp :: "transform option"
  listening :: bool

text \<open>\<^verbatim>\<open>selection.call(zoom)\<close> on one element: \<^verbatim>\<open>__zoom\<close> becomes
  \<^verbatim>\<open>this.__zoom || identity\<close> and the listeners are attached.\<close>

definition bindZoom :: "node \<Rightarrow> node" where
  "bindZoom n =
     \<lparr>zoomProp = Some (case zoomProp n of None \<Rightarrow> zoomIdentity | Some t \<Rightarrow> t),
      listening = True\<rparr>"

section \<open>The state of a component with the zoom mixin\<close>

text \<open>
  The properties the mixin inherits from the dimension, position and margin mixins and
  only reads.
\<close>

record props =
  length' :: "jsnum option"
  width :: jsnum
  margin_left :: jsnum
  margin_right :: jsnum
  display_start :: "jsnum option"
  display_end :: "jsnum option"

text \<open>
  What the component does that can be observed from outside, in the order in which it
  happens: the scale is rebuilt, the origin scale is replaced by a copy, the bound
  \<^verbatim>\<open>applyZoomTranslation\<close> is entered, the component is refreshed, a \<^verbatim>\<open>change\<close> event
  with \<^verbatim>\<open>display-start\<close> and \<^verbatim>\<open>display-end\<close> is dispatched.
\<close>

datatype effect =
  ScaleRebuilt | OriginCopied | ApplyCalled | Refreshed | Dispatched jsnum jsnum

record engine =
  props :: props
  xScale :: "scaleLinear option"
  originXScale :: "scaleLinear option"
  zoom :: "zoomBehavior option"
  svg :: "node list option"
  dontDispatch :: bool
  aboutToApply :: bool
  rafQueue :: nat
  trace :: "effect list"

definition emit :: "effect \<Rightarrow> engine \<Rightarrow> engine" where
  "emit e st = st\<lparr>trace := trace st @ [e]\<rparr>"

text \<open>The component as the constructor leaves it, for given inherited properties: no
  scale, no zoom behaviour, no rendering surface, nothing pending.\<close>

definition constructed :: "props \<Rightarrow> engine" where
  "constructed p =
     \<lparr>props = p, xScale = None, originXScale = None, zoom = None, svg = None,
      dontDispatch = False, aboutToApply = False, rafQueue = 0, trace = []\<rparr>"

text \<open>Modelled from the spec: \<^verbatim>\<open>getWidthWithMargins\<close> of the margin mixin
  (\<^verbatim>\<open>withMargin\<close>), whose source is missing; the spec gives the drawable width as the
  width minus the left and the right margin.\<close>

definition getWidthWithMargins :: "engine \<Rightarrow> jsnum" where
  "getWidthWithMargins st =
     jsub (jsub (width (props st)) (margin_left (props st))) (margin_right (props st))"

definition ATTRIBUTES_THAT_TRIGGER_REFRESH :: "string list" where
  "ATTRIBUTES_THAT_TRIGGER_REFRESH = [''length'', ''width'', ''height'']"

section \<open>The methods of the mixin\<close>

definition updateScaleDomain :: "engine \<Rightarrow> engine" where
  "updateScaleDomain st =
     emit ScaleRebuilt
       (st\<lparr>xScale := Some \<lparr>dom0 = Fin 1, dom1 = jadd (orZero (length' (props st))) (Fin 1),
                            rng0 = Fin 0, rng1 = getWidthWithMargins st\<rparr>\<rparr>)"

definition initZoom :: "engine \<Rightarrow> engine" where
  "initZoom st =
     st\<lparr>zoom := Some
          \<lparr>scaleExtent = (Fin 1, PInf),
           translateExtent = ((Fin 0, Fin 0), (getWidthWithMargins st, Fin 0)),
           extent = ((Fin 0, Fin 0), (getWidthWithMargins st, Fin 0))\<rparr>\<rparr>"

text \<open>The \<^verbatim>\<open>detail\<close> of the \<^verbatim>\<open>change\<close> event that \<^verbatim>\<open>zoomed\<close> builds from the domain
  \<open>[start, end]\<close> of the scale.\<close>

definition displayStart :: "jsnum \<Rightarrow> jsnum" where
  "displayStart start = jmax (Fin 1) start"

definition displayEnd :: "engine \<Rightarrow> jsnum \<Rightarrow> jsnum \<Rightarrow> jsnum" where
  "displayEnd st start end =
     jmin (orZero (length' (props st))) (jmax (jsub end (Fin 1)) (jadd start (Fin 1)))"

text \<open>\<^verbatim>\<open>zoomed(d3Event)\<close>; of the event only \<^verbatim>\<open>d3Event.transform\<close> is read.\<close>

definition zoomed :: "transform \<Rightarrow> engine \<Rightarrow> engine" where
  "zoomed t st =
     (let st1 = (case originXScale st of
                   Some origin \<Rightarrow> st\<lparr>xScale := Some (rescaleX t origin)\<rparr>
                 | None \<Rightarrow> st);
          (start, end) = (case xScale st1 of
                            Some s \<Rightarrow> (dom0 s, dom1 s)
                          | None \<Rightarrow> (Fin 0, Fin 0))
      in if dontDispatch st1 \<or> xScale st1 = None then st1
         else emit (Dispatched (displayStart start) (displayEnd st1 start end)) st1)"

text \<open>
  \<^verbatim>\<open>selection.call(zoom.transform, t)\<close> on the rendering surface: for each element of
  the selection in turn, \<^verbatim>\<open>__zoom\<close> is set to \<open>t\<close>, as it is (the programmatic
  \<^verbatim>\<open>zoom.transform\<close> applies neither the scale extent nor the translate extent), and
  the \<^verbatim>\<open>zoom\<close> event is emitted, which calls \<^verbatim>\<open>zoomed\<close>.
\<close>

definition setNodeTransform :: "nat \<Rightarrow> transform \<Rightarrow> engine \<Rightarrow> engine" where
  "setNodeTransform i t st =
     st\<lparr>svg := map_option (\<lambda>ns. ns[i := (ns ! i)\<lparr>zoomProp := Some t\<rparr>]) (svg st)\<rparr>"

definition callZoomTransform :: "transform \<Rightarrow> engine \<Rightarrow> engine" where
  "callZoomTransform t st =
     (case svg st of
        None \<Rightarrow> st
      | Some ns \<Rightarrow> fold (\<lambda>i s. zoomed t (setNodeTransform i t s)) [0 ..< length ns] st)"

text \<open>\<^verbatim>\<open>zoomRefreshed()\<close> calls the inherited \<^verbatim>\<open>render\<close>, which writes no field of
  the mixin.\<close>

definition zoomRefreshed :: "engine \<Rightarrow> engine" where
  "zoomRefreshed st = emit Refreshed st"

text \<open>The scale factor and the translation that \<^verbatim>\<open>applyZoomTranslation\<close> computes.\<close>

definition zoomFactor :: "engine \<Rightarrow> jsnum" where
  "zoomFactor st =
     jmax (Fin 1)
       (jdiv (orZero (length' (props st)))
          (jsub (jadd (Fin 1) (orZero (display_end (props st))))
             (orZero (display_start (props st)))))"

definition zoomDx :: "scaleLinear \<Rightarrow> engine \<Rightarrow> jsnum" where
  "zoomDx origin st = jneg (scaleApply origin (orZero (display_start (props st))))"

text \<open>The method \<^verbatim>\<open>applyZoomTranslation\<close> of the class, which the constructor keeps,
  bound, as \<^verbatim>\<open>_applyZoomTranslation\<close>.\<close>

definition applyZoomTranslation_bound :: "engine \<Rightarrow> engine" where
  "applyZoomTranslation_bound st0 =
     (let st = emit ApplyCalled st0 in
      case (svg st, originXScale st) of
        (Some ns, Some origin) \<Rightarrow>
          (let k = zoomFactor st;
               dx = zoomDx origin st;
               st1 = st\<lparr>dontDispatch := True\<rparr>;
               st2 = (case zoom st1 of
                        Some z \<Rightarrow>
                          callZoomTransform
                            (ttranslate (tscale zoomIdentity k) dx (Fin 0)) st1
                      | None \<Rightarrow> st1);
               st3 = st2\<lparr>dontDispatch := False\<rparr>
           in zoomRefreshed st3)
      | _ \<Rightarrow> st)"

text \<open>
  The property \<^verbatim>\<open>applyZoomTranslation\<close> that the constructor installs on the instance
  and that every call \<^verbatim>\<open>this.applyZoomTranslation()\<close> reaches: it postpones the bound
  method to the next animation frame. \<open>rafQueue\<close> counts the callbacks this component
  has handed to \<^verbatim>\<open>requestAnimationFrame\<close> and that have not run yet.
\<close>

definition applyZoomTranslation :: "engine \<Rightarrow> engine" where
  "applyZoomTranslation st =
     (if aboutToApply st then st
      else st\<lparr>aboutToApply := True, rafQueue := rafQueue st + 1\<rparr>)"

definition frameCallback :: "engine \<Rightarrow> engine" where
  "frameCallback st = applyZoomTranslation_bound (st\<lparr>aboutToApply := False\<rparr>)"

text \<open>The next animation frame: the browser runs the callbacks that were pending when
  the frame began.\<close>

definition animationFrame :: "engine \<Rightarrow> engine" where
  "animationFrame st = (frameCallback ^^ rafQueue st) (st\<lparr>rafQueue := 0\<rparr>)"

text \<open>\<^verbatim>\<open>connectedCallback()\<close>. The inherited callback, called last, writes no field of
  the state.\<close>

definition connectedCallback :: "engine \<Rightarrow> engine" where
  "connectedCallback st =
     (let st1 = updateScaleDomain st;
          st2 = (case xScale st1 of
                   Some s \<Rightarrow> emit OriginCopied (st1\<lparr>originXScale := Some (scaleCopy s)\<rparr>)
                 | None \<Rightarrow> st1)
      in initZoom st2)"

text \<open>The setter of \<^verbatim>\<open>svg\<close>; \<open>None\<close> is a \<^verbatim>\<open>null\<close> or \<^verbatim>\<open>undefined\<close> surface.\<close>

definition set_svg :: "node list option \<Rightarrow> engine \<Rightarrow> engine" where
  "set_svg v st =
     (case (v, zoom st) of
        (Some sel, Some z) \<Rightarrow> applyZoomTranslation (st\<lparr>svg := Some (map bindZoom sel)\<rparr>)
      | _ \<Rightarrow> st)"

text \<open>
  \<^verbatim>\<open>attributeChangedCallback(name, oldValue, newValue)\<close>. The inherited callback runs
  first; it is the one that stores the new value of the attribute in the inherited
  properties, and it is the parameter \<open>inherited\<close>.
\<close>

definition attributeChangedCallback ::
  "(props \<Rightarrow> props) \<Rightarrow> string \<Rightarrow> string option \<Rightarrow> string option \<Rightarrow> engine \<Rightarrow> engine" where
  "attributeChangedCallback inherited name oldValue newValue st =
     (let st1 = st\<lparr>props := inherited (props st)\<rparr> in
      if zoom st1 = None then st1
      else
        (let newV = (if newValue = Some ''null'' then None else newValue) in
         if oldValue \<noteq> newV then
           (let st2 = (if name \<in> set ATTRIBUTES_THAT_TRIGGER_REFRESH then
                         (let st' = updateScaleDomain st1
                          in emit OriginCopied
                               (st'\<lparr>originXScale := map_option scaleCopy (xScale st')\<rparr>))
                       else st1)
            in applyZoomTranslation st2)
         else st1))"

definition render :: "engine \<Rightarrow> engine" where
  "render st = applyZoomTranslation st"

definition getXFromSeqPosition :: "engine \<Rightarrow> jsnum \<Rightarrow> jsnum" where
  "getXFromSeqPosition st position =
     (case xScale st of
        None \<Rightarrow> Fin (- 1)
      | Some s \<Rightarrow> jadd (margin_left (props st)) (scaleApply s position))"

definition getSingleBaseWidth :: "engine \<Rightarrow> jsnum" where
  "getSingleBaseWidth st =
     (case xScale st of
        None \<Rightarrow> Fin (- 1)
      | Some s \<Rightarrow> jsub (scaleApply s (Fin 2)) (scaleApply s (Fin 1)))"

section \<open>Reading the state\<close>

text \<open>The \<^verbatim>\<open>change\<close> events dispatched so far, and how often the bound
  \<^verbatim>\<open>applyZoomTranslation\<close> has been entered.\<close>

fun isDispatched :: "effect \<Rightarrow> bool" where
  "isDispatched (Dispatched a b) = True"
| "isDispatched _ = False"

definition dispatched :: "engine \<Rightarrow> effect list" where
  "dispatched st = filter isDispatched (trace st)"

definition applyCalls :: "engine \<Rightarrow> nat" where
  "applyCalls st = length (filter (\<lambda>e. e = ApplyCalled) (trace st))"

text \<open>The visible range that belongs to the current scale: the pair that \<^verbatim>\<open>zoomed\<close>
  puts into the \<^verbatim>\<open>change\<close> event.\<close>

definition visibleRange :: "engine \<Rightarrow> (jsnum \<times> jsnum) option" where
  "visibleRange st =
     (case xScale st of
        None \<Rightarrow> None
      | Some s \<Rightarrow> Some (displayStart (dom0 s), displayEnd st (dom0 s) (dom1 s)))"

text \<open>The scale that \<^verbatim>\<open>_updateScaleDomain\<close> builds for given properties.\<close>

definition rebuiltScale :: "engine \<Rightarrow> scaleLinear" where
  "rebuiltScale st =
     \<lparr>dom0 = Fin 1, dom1 = jadd (orZero (length' (props st))) (Fin 1),
      rng0 = Fin 0, rng1 = getWidthWithMargins st\<rparr>"

text \<open>The transform that \<^verbatim>\<open>applyZoomTranslation\<close> hands to \<^verbatim>\<open>zoom.transform\<close>.\<close>

definition zoomTransform :: "scaleLinear \<Rightarrow> engine \<Rightarrow> transform" where
  "zoomTransform origin st =
     ttranslate (tscale zoomIdentity (zoomFactor st)) (zoomDx origin st) (Fin 0)"

section \<open>Rounded arithmetic\<close>

text \<open>
  IEEE arithmetic rounds the result of every sum, difference, product and quotient. The
  functions of this section are the functions above, and the gesture handling of d3-zoom,
  with each such result rounded by a function \<open>rnd\<close> on the real numbers; comparisons,
  negation, \<^verbatim>\<open>Math.max\<close> and \<^verbatim>\<open>Math.min\<close> round nothing. A function named
  \<open>fR\<close> is the function \<open>f\<close> above, and equal to it for the identity in place of
  \<open>rnd\<close>. Overflow to an infinity and the sign of zero are left out.
\<close>

definition jround :: "(real \<Rightarrow> real) \<Rightarrow> jsnum \<Rightarrow> jsnum" where
  "jround rnd v = (case v of Fin r \<Rightarrow> Fin (rnd r) | _ \<Rightarrow> v)"

definition jaddR :: "(real \<Rightarrow> real) \<Rightarrow> jsnum \<Rightarrow> jsnum \<Rightarrow> jsnum" where
  "jaddR rnd a b = jround rnd (jadd a b)"

definition jsubR :: "(real \<Rightarrow> real) \<Rightarrow> jsnum \<Rightarrow> jsnum \<Rightarrow> jsnum" where
  "jsubR rnd a b = jround rnd (jsub a b)"

definition jmulR :: "(real \<Rightarrow> real) \<Rightarrow> jsnum \<Rightarrow> jsnum \<Rightarrow> jsnum" where
  "jmulR rnd a b = jround rnd (jmul a b)"

definition jdivR :: "(real \<Rightarrow> real) \<Rightarrow> jsnum \<Rightarrow> jsnum \<Rightarrow> jsnum" where
  "jdivR rnd a b = jround rnd (jdiv a b)"

text \<open>
  A rounding function is accurate to \<open>u\<close> when the relative error of every result is at
  most \<open>u\<close>. Rounding to the nearest double is accurate to \<^verbatim>\<open>2^-53\<close> on every result
  that neither overflows nor underflows.
\<close>

definition accurate :: "real \<Rightarrow> (real \<Rightarrow> real) \<Rightarrow> bool" where
  "accurate u rnd = (\<forall>x. \<bar>rnd x - x\<bar> \<le> u * \<bar>x\<bar>)"

text \<open>A computed number \<open>a\<close> is near the number \<open>x\<close> it stands for, with relative error
  at most \<open>r\<close>.\<close>

definition near :: "real \<Rightarrow> real \<Rightarrow> real \<Rightarrow> bool" where
  "near r a x = (\<bar>a - x\<bar> \<le> r * \<bar>x\<bar>)"

text \<open>d3-scale and d3-interpolate.\<close>

definition normalizeR :: "(real \<Rightarrow> real) \<Rightarrow> jsnum \<Rightarrow> jsnum \<Rightarrow> jsnum \<Rightarrow> jsnum" where
  "normalizeR rnd a b xv =
     (let d = jsubR rnd b a in
      if truthy d then jdivR rnd (jsubR rnd xv a) d
      else if isNaN d then NaN else Fin (1 / 2))"

definition interpolateNumberR :: "(real \<Rightarrow> real) \<Rightarrow> jsnum \<Rightarrow> jsnum \<Rightarrow> jsnum \<Rightarrow> jsnum" where
  "interpolateNumberR rnd a b t =
     jaddR rnd (jmulR rnd a (jsubR rnd (Fin 1) t)) (jmulR rnd b t)"

definition bimapR ::
  "(real \<Rightarrow> real) \<Rightarrow> jsnum \<Rightarrow> jsnum \<Rightarrow> jsnum \<Rightarrow> jsnum \<Rightarrow> jsnum \<Rightarrow> jsnum" where
  "bimapR rnd d0 d1 r0 r1 xv =
     (if jlt d1 d0 then interpolateNumberR rnd r1 r0 (normalizeR rnd d1 d0 xv)
      else interpolateNumberR rnd r0 r1 (normalizeR rnd d0 d1 xv))"

definition scaleApplyR :: "(real \<Rightarrow> real) \<Rightarrow> scaleLinear \<Rightarrow> jsnum \<Rightarrow> jsnum" where
  "scaleApplyR rnd s xv =
     (if isNaN xv then NaN else bimapR rnd (dom0 s) (dom1 s) (rng0 s) (rng1 s) xv)"

definition scaleInvertR :: "(real \<Rightarrow> real) \<Rightarrow> scaleLinear \<Rightarrow> jsnum \<Rightarrow> jsnum" where
  "scaleInvertR rnd s yv = bimapR rnd (rng0 s) (rng1 s) (dom0 s) (dom1 s) yv"

text \<open>What \<open>normalizeR\<close>, \<open>interpolateNumberR\<close> and \<open>bimapR\<close> compute on finite
  numbers.\<close>

definition normalizeF :: "(real \<Rightarrow> real) \<Rightarrow> real \<Rightarrow> real \<Rightarrow> real \<Rightarrow> real" where
  "normalizeF rnd a b x =
     (if rnd (b - a) = 0 then 1 / 2 else rnd (rnd (x - a) / rnd (b - a)))"

definition interpolateF :: "(real \<Rightarrow> real) \<Rightarrow> real \<Rightarrow> real \<Rightarrow> real \<Rightarrow> real" where
  "interpolateF rnd a b t = rnd (rnd (a * rnd (1 - t)) + rnd (b * t))"

definition bimapF ::
  "(real \<Rightarrow> real) \<Rightarrow> real \<Rightarrow> real \<Rightarrow> real \<Rightarrow> real \<Rightarrow> real \<Rightarrow> real" where
  "bimapF rnd d0 d1 r0 r1 x =
     (if d1 < d0 then interpolateF rnd r1 r0 (normalizeF rnd d1 d0 x)
      else interpolateF rnd r0 r1 (normalizeF rnd d0 d1 x))"

text \<open>d3-zoom, the transform.\<close>

definition tscaleR :: "(real \<Rightarrow> real) \<Rightarrow> transform \<Rightarrow> jsnum \<Rightarrow> transform" where
  "tscaleR rnd t kv =
     (if kv = Fin 1 then t else \<lparr>tk = jmulR rnd (tk t) kv, tx = tx t, ty = ty t\<rparr>)"

definition ttranslateR :: "(real \<Rightarrow> real) \<Rightarrow> transform \<Rightarrow> jsnum \<Rightarrow> jsnum \<Rightarrow> transform" where
  "ttranslateR rnd t xv yv =
     (if xv = Fin 0 \<and> yv = Fin 0 then t
      else \<lparr>tk = tk t, tx = jaddR rnd (tx t) (jmulR rnd (tk t) xv),
            ty = jaddR rnd (ty t) (jmulR rnd (tk t) yv)\<rparr>)"

definition invertXR :: "(real \<Rightarrow> real) \<Rightarrow> transform \<Rightarrow> jsnum \<Rightarrow> jsnum" where
  "invertXR rnd t xv = jdivR rnd (jsubR rnd xv (tx t)) (tk t)"

text \<open>d3-zoom, \<^verbatim>\<open>transform.invertY(y)\<close>: \<^verbatim>\<open>(y - this.y) / this.k\<close>.\<close>

definition invertYR :: "(real \<Rightarrow> real) \<Rightarrow> transform \<Rightarrow> jsnum \<Rightarrow> jsnum" where
  "invertYR rnd t yv = jdivR rnd (jsubR rnd yv (ty t)) (tk t)"

definition rescaleXR :: "(real \<Rightarrow> real) \<Rightarrow> transform \<Rightarrow> scaleLinear \<Rightarrow> scaleLinear" where
  "rescaleXR rnd t s =
     (scaleCopy s)\<lparr>dom0 := scaleInvertR rnd s (invertXR rnd t (rng0 s)),
                   dom1 := scaleInvertR rnd s (invertXR rnd t (rng1 s))\<rparr>"

text \<open>\<^verbatim>\<open>a || b\<close> on numbers.\<close>

definition jor :: "jsnum \<Rightarrow> jsnum \<Rightarrow> jsnum" where
  "jor a b = (if truthy a then a else b)"

text \<open>d3-zoom, the default \<^verbatim>\<open>constrain(transform, extent, translateExtent)\<close>: with
  \<^verbatim>\<open>dx0 = transform.invertX(extent[0][0]) - translateExtent[0][0]\<close> and
  \<^verbatim>\<open>dx1 = transform.invertX(extent[1][0]) - translateExtent[1][0]\<close> it translates by
  \<^verbatim>\<open>dx1 > dx0 ? (dx0 + dx1) / 2 : Math.min(0, dx0) || Math.max(0, dx1)\<close>, and likewise
  in the other direction.\<close>

definition constrainR ::
  "(real \<Rightarrow> real) \<Rightarrow> transform \<Rightarrow> (jsnum \<times> jsnum) \<times> (jsnum \<times> jsnum) \<Rightarrow>
   (jsnum \<times> jsnum) \<times> (jsnum \<times> jsnum) \<Rightarrow> transform" where
  "constrainR rnd t e te =
     (let dx0 = jsubR rnd (invertXR rnd t (fst (fst e))) (fst (fst te));
          dx1 = jsubR rnd (invertXR rnd t (fst (snd e))) (fst (snd te));
          dy0 = jsubR rnd (invertYR rnd t (snd (fst e))) (snd (fst te));
          dy1 = jsubR rnd (invertYR rnd t (snd (snd e))) (snd (snd te))
      in ttranslateR rnd t
           (if jlt dx0 dx1 then jdivR rnd (jaddR rnd dx0 dx1) (Fin 2)
            else jor (jmin (Fin 0) dx0) (jmax (Fin 0) dx1))
           (if jlt dy0 dy1 then jdivR rnd (jaddR rnd dy0 dy1) (Fin 2)
            else jor (jmin (Fin 0) dy0) (jmax (Fin 0) dy1)))"

text \<open>d3-zoom, the helpers of the gesture handlers. \<^verbatim>\<open>scale(transform, k)\<close> clamps the
  requested factor to the scale extent:
  \<^verbatim>\<open>k = Math.max(scaleExtent[0], Math.min(scaleExtent[1], k))\<close>, then
  \<^verbatim>\<open>k === transform.k ? transform : new Transform(k, transform.x, transform.y)\<close>.
  \<^verbatim>\<open>translate(transform, p0, p1)\<close> moves the point \<open>p1\<close> of the content under the
  pointer position \<open>p0\<close>: \<^verbatim>\<open>x = p0[0] - p1[0] * transform.k\<close>, likewise \<open>y\<close>, then
  \<^verbatim>\<open>x === transform.x && y === transform.y ? transform : new Transform(transform.k, x, y)\<close>.\<close>

definition gscale :: "zoomBehavior \<Rightarrow> transform \<Rightarrow> jsnum \<Rightarrow> transform" where
  "gscale z t kv =
     (let k' = jmax (fst (scaleExtent z)) (jmin (snd (scaleExtent z)) kv)
      in if k' = tk t \<and> \<not> isNaN k' then t else \<lparr>tk = k', tx = tx t, ty = ty t\<rparr>)"

definition gtranslateR ::
  "(real \<Rightarrow> real) \<Rightarrow> transform \<Rightarrow> jsnum \<times> jsnum \<Rightarrow> jsnum \<times> jsnum \<Rightarrow> transform" where
  "gtranslateR rnd t p0 p1 =
     (let xv = jsubR rnd (fst p0) (jmulR rnd (fst p1) (tk t));
          yv = jsubR rnd (snd p0) (jmulR rnd (snd p1) (tk t))
      in if xv = tx t \<and> \<not> isNaN xv \<and> yv = ty t \<and> \<not> isNaN yv then t
         else \<lparr>tk = tk t, tx = xv, ty = yv\<rparr>)"

text \<open>
  The gesture handlers of d3-zoom compute the new transform from the element's current
  one as \<^verbatim>\<open>constrain(translate(scale(t, k), p0, p1), extent, translateExtent)\<close>, for a
  requested factor \<open>k\<close>, the pointer position \<open>p0\<close> and the point \<open>p1\<close> of the content
  that is to stay under the pointer.
\<close>

definition gestureTransformR ::
  "(real \<Rightarrow> real) \<Rightarrow> zoomBehavior \<Rightarrow> transform \<Rightarrow> jsnum \<Rightarrow> jsnum \<times> jsnum \<Rightarrow>
   jsnum \<times> jsnum \<Rightarrow> transform" where
  "gestureTransformR rnd z t kv p0 p1 =
     constrainR rnd (gtranslateR rnd (gscale z t kv) p0 p1) (extent z) (translateExtent z)"

text \<open>The methods of the mixin.\<close>

definition displayEndR :: "(real \<Rightarrow> real) \<Rightarrow> engine \<Rightarrow> jsnum \<Rightarrow> jsnum \<Rightarrow> jsnum" where
  "displayEndR rnd st start end =
     jmin (orZero (length' (props st)))
       (jmax (jsubR rnd end (Fin 1)) (jaddR rnd start (Fin 1)))"

definition zoomedR :: "(real \<Rightarrow> real) \<Rightarrow> transform \<Rightarrow> engine \<Rightarrow> engine" where
  "zoomedR rnd t st =
     (let st1 = (case originXScale st of
                   Some origin \<Rightarrow> st\<lparr>xScale := Some (rescaleXR rnd t origin)\<rparr>
                 | None \<Rightarrow> st);
          (start, end) = (case xScale st1 of
                            Some s \<Rightarrow> (dom0 s, dom1 s)
                          | None \<Rightarrow> (Fin 0, Fin 0))
      in if dontDispatch st1 \<or> xScale st1 = None then st1
         else emit (Dispatched (displayStart start) (displayEndR rnd st1 start end)) st1)"

definition callZoomTransformR :: "(real \<Rightarrow> real) \<Rightarrow> transform \<Rightarrow> engine \<Rightarrow> engine" where
  "callZoomTransformR rnd t st =
     (case svg st of
        None \<Rightarrow> st
      | Some ns \<Rightarrow> fold (\<lambda>i s. zoomedR rnd t (setNodeTransform i t s)) [0 ..< length ns] st)"

definition zoomFactorR :: "(real \<Rightarrow> real) \<Rightarrow> engine \<Rightarrow> jsnum" where
  "zoomFactorR rnd st =
     jmax (Fin 1)
       (jdivR rnd (orZero (length' (props st)))
          (jsubR rnd (jaddR rnd (Fin 1) (orZero (display_end (props st))))
             (orZero (display_start (props st)))))"

definition zoomDxR :: "(real \<Rightarrow> real) \<Rightarrow> scaleLinear \<Rightarrow> engine \<Rightarrow> jsnum" where
  "zoomDxR rnd origin st = jneg (scaleApplyR rnd origin (orZero (display_start (props st))))"

definition zoomTransformR :: "(real \<Rightarrow> real) \<Rightarrow> scaleLinear \<Rightarrow> engine \<Rightarrow> transform" where
  "zoomTransformR rnd origin st =
     ttranslateR rnd (tscaleR rnd zoomIdentity (zoomFactorR rnd st)) (zoomDxR rnd origin st) (Fin 0)"

definition applyZoomTranslation_boundR :: "(real \<Rightarrow> real) \<Rightarrow> engine \<Rightarrow> engine" where
  "applyZoomTranslation_boundR rnd st0 =
     (let st = emit ApplyCalled st0 in
      case (svg st, originXScale st) of
        (Some ns, Some origin) \<Rightarrow>
          (let k = zoomFactorR rnd st;
               dx = zoomDxR rnd origin st;
               st1 = st\<lparr>dontDispatch := True\<rparr>;
               st2 = (case zoom st1 of
                        Some z \<Rightarrow>
                          callZoomTransformR rnd
                            (ttranslateR rnd (tscaleR rnd zoomIdentity k) dx (Fin 0)) st1
                      | None \<Rightarrow> st1);
               st3 = st2\<lparr>dontDispatch := False\<rparr>
           in zoomRefreshed st3)
      | _ \<Rightarrow> st)"

definition visibleRangeR :: "(real \<Rightarrow> real) \<Rightarrow> engine \<Rightarrow> (jsnum \<times> jsnum) option" where
  "visibleRangeR rnd st =
     (case xScale st of
        None \<Rightarrow> None
      | Some s \<Rightarrow> Some (displayStart (dom0 s), displayEndR rnd st (dom0 s) (dom1 s)))"

text \<open>
  A wheel gesture of the user on element \<open>i\<close> of the surface, with the pointer at \<open>p\<close>
  and the factor \<open>f\<close> (\<^verbatim>\<open>Math.pow(2, wheelDelta)\<close>), starting a gesture. The handler
  \<^verbatim>\<open>wheeled\<close> of d3-zoom reads the element's transform \<open>t\<close>, asks for the factor
  \<^verbatim>\<open>k = Math.max(scaleExtent[0], Math.min(scaleExtent[1], t.k * f))\<close>, returns if
  \<^verbatim>\<open>t.k === k\<close>, and otherwise stores
  \<^verbatim>\<open>constrain(translate(scale(t, k), p, t.invert(p)), extent, translateExtent)\<close> in
  \<^verbatim>\<open>__zoom\<close> and emits the \<^verbatim>\<open>zoom\<close> event, which calls \<^verbatim>\<open>zoomed\<close>.
\<close>

definition wheeledR ::
  "(real \<Rightarrow> real) \<Rightarrow> nat \<Rightarrow> jsnum \<Rightarrow> jsnum \<times> jsnum \<Rightarrow> engine \<Rightarrow> engine" where
  "wheeledR rnd i f p st =
     (case (svg st, zoom st) of
        (Some ns, Some z) \<Rightarrow>
          (if i < length ns \<and> listening (ns ! i) then
             (case zoomProp (ns ! i) of
                Some t \<Rightarrow>
                  (let kv = jmax (fst (scaleExtent z))
                              (jmin (snd (scaleExtent z)) (jmulR rnd (tk t) f))
                   in if tk t = kv \<and> \<not> isNaN kv then st
                      else
                        (let t' = gestureTransformR rnd z t kv p
                                    (invertXR rnd t (fst p), invertYR rnd t (snd p))
                         in zoomedR rnd t' (setNodeTransform i t' st)))
              | None \<Rightarrow> st)
           else st)
      | _ \<Rightarrow> st)"

section \<open>Example states\<close>

definition exampleProps :: "real \<Rightarrow> real \<Rightarrow> jsnum option \<Rightarrow> jsnum option \<Rightarrow> props" where
  "exampleProps l w s e =
     \<lparr>length' = Some (Fin l), width = Fin w, margin_left = Fin 0, margin_right = Fin 0,
      display_start = s, display_end = e\<rparr>"

definition freshNode :: node where
  "freshNode = \<lparr>zoomProp = None, listening = False\<rparr>"

text \<open>A component that has been connected and given a surface of one element.\<close>

definition exampleEngine :: "real \<Rightarrow> real \<Rightarrow> jsnum option \<Rightarrow> jsnum option \<Rightarrow> engine" where
  "exampleEngine l w s e =
     set_svg (Some [freshNode]) (connectedCallback (constructed (exampleProps l w s e)))"

section \<open>Arithmetic on finite numbers\<close>

text \<open>On finite arguments the operations are those of the real numbers, and a scale is
  the linear function through its two points.\<close>

lemma jsub_Fin [simp]: "jsub (Fin a) (Fin b) = Fin (a - b)"
  by (simp add: jsub_def)

lemma jmax_Fin [simp]: "jmax (Fin a) (Fin b) = Fin (max a b)"
  by (simp add: jmax_def max_def)

lemma jmin_Fin [simp]: "jmin (Fin a) (Fin b) = Fin (min a b)"
  by (simp add: jmin_def min_def)

lemma jle_Fin [simp]: "jle (Fin a) (Fin b) = (a \<le> b)"
  by auto

lemma orZero_not_NaN: "\<not> isNaN (orZero v)"
  by (cases v) (auto elim: truthy.elims)

lemma normalize_Fin:
  "normalize (Fin a) (Fin b) (Fin v) = Fin (if b = a then 1 / 2 else (v - a) / (b - a))"
  by (simp add: normalize_def)

lemma interpolateNumber_Fin:
  "interpolateNumber (Fin a) (Fin b) (Fin t) = Fin (a * (1 - t) + b * t)"
  by (simp add: interpolateNumber_def)

lemma bimap_Fin:
  "bimap (Fin d0) (Fin d1) (Fin r0) (Fin r1) (Fin v) =
     Fin (if d0 = d1 then (r0 + r1) / 2 else r0 + (r1 - r0) * (v - d0) / (d1 - d0))"
proof (cases "d0 = d1")
  case True
  then show ?thesis
    by (simp add: bimap_def normalize_Fin interpolateNumber_Fin field_simps)
next
  case False
  define u where "u = (v - d0) / (d1 - d0)"
  from False have nz: "d1 - d0 \<noteq> 0" by simp
  have flip: "(v - d1) / (d0 - d1) = 1 - u"
  proof -
    have "(v - d1) / (d0 - d1) = (d1 - v) / (d1 - d0)"
      by (metis minus_diff_eq minus_divide_divide)
    also have "\<dots> = ((d1 - d0) - (v - d0)) / (d1 - d0)" by simp
    also have "\<dots> = (d1 - d0) / (d1 - d0) - (v - d0) / (d1 - d0)"
      by (rule diff_divide_distrib)
    also have "\<dots> = 1 - u"
    proof -
      have "(d1 - d0) / (d1 - d0) = 1" using nz by (rule divide_self)
      then show ?thesis by (simp only: u_def)
    qed
    finally show ?thesis .
  qed
  have unf: "r0 + (r1 - r0) * u = r0 + (r1 - r0) * (v - d0) / (d1 - d0)"
    by (simp add: u_def)
  show ?thesis
  proof (cases "d1 < d0")
    case True
    have "r1 * (1 - (v - d1) / (d0 - d1)) + r0 * ((v - d1) / (d0 - d1)) =
        r1 * (1 - (1 - u)) + r0 * (1 - u)"
      by (simp only: flip)
    also have "\<dots> = r0 + (r1 - r0) * u"
      by (simp add: algebra_simps)
    finally have "r1 * (1 - (v - d1) / (d0 - d1)) + r0 * ((v - d1) / (d0 - d1)) =
        r0 + (r1 - r0) * (v - d0) / (d1 - d0)"
      by (simp only: unf)
    with True False show ?thesis
      by (simp add: bimap_def normalize_Fin interpolateNumber_Fin)
  next
    case ge: False
    have "r0 * (1 - u) + r1 * u = r0 + (r1 - r0) * u"
      by (simp add: algebra_simps)
    then have "r0 * (1 - (v - d0) / (d1 - d0)) + r1 * ((v - d0) / (d1 - d0)) =
        r0 + (r1 - r0) * (v - d0) / (d1 - d0)"
      by (simp add: u_def)
    with ge False show ?thesis
      by (simp add: bimap_def normalize_Fin interpolateNumber_Fin)
  qed
qed

lemma scaleApply_Fin:
  "scaleApply \<lparr>dom0 = Fin d0, dom1 = Fin d1, rng0 = Fin r0, rng1 = Fin r1\<rparr> (Fin v) =
     Fin (if d0 = d1 then (r0 + r1) / 2 else r0 + (r1 - r0) * (v - d0) / (d1 - d0))"
  by (simp add: scaleApply_def bimap_Fin)

lemma scaleInvert_Fin:
  "scaleInvert \<lparr>dom0 = Fin d0, dom1 = Fin d1, rng0 = Fin r0, rng1 = Fin r1\<rparr> (Fin v) =
     Fin (if r0 = r1 then (d0 + d1) / 2 else d0 + (d1 - d0) * (v - r0) / (r1 - r0))"
  by (simp add: scaleInvert_def bimap_Fin)

lemma invertX_Fin:
  "kv \<noteq> 0 \<Longrightarrow> invertX \<lparr>tk = Fin kv, tx = Fin xv, ty = yv\<rparr> (Fin v) = Fin ((v - xv) / kv)"
  by (simp add: invertX_def)

lemma rescaleX_Fin:
  "kv \<noteq> 0 \<Longrightarrow>
   rescaleX \<lparr>tk = Fin kv, tx = Fin xv, ty = yv\<rparr>
       \<lparr>dom0 = Fin d0, dom1 = Fin d1, rng0 = Fin r0, rng1 = Fin r1\<rparr> =
     \<lparr>dom0 = Fin (if r0 = r1 then (d0 + d1) / 2
                  else d0 + (d1 - d0) * ((r0 - xv) / kv - r0) / (r1 - r0)),
      dom1 = Fin (if r0 = r1 then (d0 + d1) / 2
                  else d0 + (d1 - d0) * ((r1 - xv) / kv - r0) / (r1 - r0)),
      rng0 = Fin r0, rng1 = Fin r1\<rparr>"
  by (simp add: rescaleX_def scaleCopy_def invertX_Fin scaleInvert_Fin)

lemma zoomTransform_Fin:
  "zoomFactor st = Fin kv \<Longrightarrow> zoomDx origin st = Fin d \<Longrightarrow>
   zoomTransform origin st = \<lparr>tk = Fin kv, tx = Fin (kv * d), ty = Fin 0\<rparr>"
  by (simp add: zoomTransform_def tscale_def ttranslate_def zoomIdentity_def)

section \<open>The latch\<close>

lemma zoomed_latched:
  "dontDispatch st \<Longrightarrow> dontDispatch (zoomed t st) \<and> trace (zoomed t st) = trace st"
  by (simp add: zoomed_def Let_def split: option.splits prod.splits)

lemma zoomed_keeps:
  "svg (zoomed t st) = svg st \<and> zoom (zoomed t st) = zoom st
   \<and> originXScale (zoomed t st) = originXScale st \<and> props (zoomed t st) = props st
   \<and> aboutToApply (zoomed t st) = aboutToApply st \<and> rafQueue (zoomed t st) = rafQueue st
   \<and> dontDispatch (zoomed t st) = dontDispatch st"
  by (simp add: zoomed_def emit_def Let_def split: option.splits prod.splits)

lemma zoomed_xScale:
  "originXScale st = Some origin \<Longrightarrow> xScale (zoomed t st) = Some (rescaleX t origin)"
  by (simp add: zoomed_def emit_def Let_def split: prod.splits)

lemma setNodeTransform_keeps:
  "trace (setNodeTransform i t st) = trace st
   \<and> dontDispatch (setNodeTransform i t st) = dontDispatch st
   \<and> zoom (setNodeTransform i t st) = zoom st
   \<and> originXScale (setNodeTransform i t st) = originXScale st
   \<and> xScale (setNodeTransform i t st) = xScale st
   \<and> props (setNodeTransform i t st) = props st
   \<and> aboutToApply (setNodeTransform i t st) = aboutToApply st
   \<and> rafQueue (setNodeTransform i t st) = rafQueue st"
  by (simp add: setNodeTransform_def)

lemma fold_latched:
  "dontDispatch st \<Longrightarrow>
   dontDispatch (fold (\<lambda>i s. zoomed t (setNodeTransform i t s)) js st)
   \<and> trace (fold (\<lambda>i s. zoomed t (setNodeTransform i t s)) js st) = trace st"
proof (induction js arbitrary: st)
  case Nil
  then show ?case by simp
next
  case (Cons j js)
  have "dontDispatch (setNodeTransform j t st)"
    using Cons.prems by (simp add: setNodeTransform_keeps)
  then have step: "dontDispatch (zoomed t (setNodeTransform j t st))
      \<and> trace (zoomed t (setNodeTransform j t st)) = trace st"
    using zoomed_latched [of "setNodeTransform j t st" t] by (simp add: setNodeTransform_keeps)
  from Cons.IH [of "zoomed t (setNodeTransform j t st)"] step show ?case by simp
qed

lemma fold_keeps:
  "zoom (fold (\<lambda>i s. zoomed t (setNodeTransform i t s)) js st) = zoom st
   \<and> originXScale (fold (\<lambda>i s. zoomed t (setNodeTransform i t s)) js st) = originXScale st
   \<and> props (fold (\<lambda>i s. zoomed t (setNodeTransform i t s)) js st) = props st
   \<and> aboutToApply (fold (\<lambda>i s. zoomed t (setNodeTransform i t s)) js st) = aboutToApply st
   \<and> rafQueue (fold (\<lambda>i s. zoomed t (setNodeTransform i t s)) js st) = rafQueue st"
  by (induction js arbitrary: st) (simp_all add: zoomed_keeps setNodeTransform_keeps)

lemma fold_svg:
  "svg (fold (\<lambda>i s. zoomed t (setNodeTransform i t s)) js st) =
     map_option (fold (\<lambda>i ns. ns[i := (ns ! i)\<lparr>zoomProp := Some t\<rparr>]) js) (svg st)"
proof (induction js arbitrary: st)
  case Nil
  then show ?case by (simp add: option.map_ident)
next
  case (Cons j js)
  show ?case
    by (simp add: Cons.IH zoomed_keeps) (simp add: setNodeTransform_def option.map_comp comp_def)
qed

lemma fold_xScale:
  "originXScale st = Some origin \<Longrightarrow> js \<noteq> [] \<Longrightarrow>
   xScale (fold (\<lambda>i s. zoomed t (setNodeTransform i t s)) js st) = Some (rescaleX t origin)"
proof (induction js arbitrary: st)
  case Nil
  then show ?case by simp
next
  case (Cons j js)
  let ?st' = "zoomed t (setNodeTransform j t st)"
  have o: "originXScale ?st' = Some origin"
    using Cons.prems(1) by (simp add: zoomed_keeps setNodeTransform_keeps)
  show ?case
  proof (cases "js = []")
    case True
    have "originXScale (setNodeTransform j t st) = Some origin"
      using Cons.prems(1) by (simp add: setNodeTransform_keeps)
    then show ?thesis using True by (simp add: zoomed_xScale)
  next
    case False
    from Cons.IH [OF o False] show ?thesis by simp
  qed
qed

lemma update_all_upto:
  "n \<le> length ns \<Longrightarrow>
   fold (\<lambda>i ms. ms[i := g (ms ! i)]) [0 ..< n] ns = map g (take n ns) @ drop n ns"
proof (induction n)
  case 0
  then show ?case by simp
next
  case (Suc n)
  then have n: "n < length ns" by simp
  have "fold (\<lambda>i ms. ms[i := g (ms ! i)]) [0 ..< Suc n] ns =
      (map g (take n ns) @ drop n ns)[n := g ((map g (take n ns) @ drop n ns) ! n)]"
    using Suc by simp
  also have "(map g (take n ns) @ drop n ns) ! n = ns ! n"
    using n by (simp add: nth_append)
  also have "(map g (take n ns) @ drop n ns)[n := g (ns ! n)] =
      map g (take (Suc n) ns) @ drop (Suc n) ns"
    using n by (simp add: list_update_append take_Suc_conv_app_nth Cons_nth_drop_Suc [symmetric])
  finally show ?case .
qed

lemma update_all:
  "fold (\<lambda>i ms. ms[i := g (ms ! i)]) [0 ..< length ns] ns = map g ns"
  using update_all_upto [of "length ns" ns g] by simp

lemma callZoomTransform_latched:
  "dontDispatch st \<Longrightarrow>
   dontDispatch (callZoomTransform t st) \<and> trace (callZoomTransform t st) = trace st"
  by (simp add: callZoomTransform_def fold_latched split: option.splits)

lemma callZoomTransform_svg:
  "svg (callZoomTransform t st) = map_option (map (\<lambda>n. n\<lparr>zoomProp := Some t\<rparr>)) (svg st)"
  by (cases "svg st") (simp_all add: callZoomTransform_def fold_svg update_all)

lemma callZoomTransform_keeps:
  "zoom (callZoomTransform t st) = zoom st
   \<and> originXScale (callZoomTransform t st) = originXScale st
   \<and> props (callZoomTransform t st) = props st
   \<and> aboutToApply (callZoomTransform t st) = aboutToApply st
   \<and> rafQueue (callZoomTransform t st) = rafQueue st"
  by (cases "svg st") (simp_all add: callZoomTransform_def fold_keeps)

lemma callZoomTransform_xScale:
  "svg st = Some ns \<Longrightarrow> ns \<noteq> [] \<Longrightarrow> originXScale st = Some origin \<Longrightarrow>
   xScale (callZoomTransform t st) = Some (rescaleX t origin)"
  by (simp add: callZoomTransform_def fold_xScale)

section \<open>The bound applyZoomTranslation\<close>

lemma applyZoomTranslation_bound_trace:
  "trace (applyZoomTranslation_bound st) =
     trace st @ (if svg st \<noteq> None \<and> originXScale st \<noteq> None then [ApplyCalled, Refreshed]
                 else [ApplyCalled])"
proof (cases "svg st")
  case None
  then show ?thesis by (simp add: applyZoomTranslation_bound_def emit_def)
next
  case (Some ns)
  show ?thesis
  proof (cases "originXScale st")
    case None
    with Some show ?thesis by (simp add: applyZoomTranslation_bound_def emit_def)
  next
    case (Some origin)
    let ?st1 = "(emit ApplyCalled st)\<lparr>dontDispatch := True\<rparr>"
    have l: "dontDispatch ?st1" by simp
    show ?thesis
      using \<open>svg st = Some ns\<close> Some callZoomTransform_latched [OF l]
      by (simp add: applyZoomTranslation_bound_def emit_def zoomRefreshed_def Let_def
          split: option.splits)
  qed
qed

lemma zoomFactor_trace [simp]: "zoomFactor (st\<lparr>trace := tr\<rparr>) = zoomFactor st"
  by (simp add: zoomFactor_def)

lemma zoomDx_trace [simp]: "zoomDx origin (st\<lparr>trace := tr\<rparr>) = zoomDx origin st"
  by (simp add: zoomDx_def)

lemma zoomFactor_clamped: "isNaN (zoomFactor st) \<or> jle (Fin 1) (zoomFactor st)"
proof -
  have "isNaN (jmax (Fin 1) q) \<or> jle (Fin 1) (jmax (Fin 1) q)" for q
    by (cases q) (simp_all add: jmax_def)
  then show ?thesis by (simp add: zoomFactor_def)
qed

lemma applyZoomTranslation_bound_ready:
  assumes "svg st = Some ns" and "originXScale st = Some origin" and "zoom st = Some z"
  shows "applyZoomTranslation_bound st =
     zoomRefreshed
       ((callZoomTransform (zoomTransform origin st)
           ((emit ApplyCalled st)\<lparr>dontDispatch := True\<rparr>))\<lparr>dontDispatch := False\<rparr>)"
  using assms
  by (simp add: applyZoomTranslation_bound_def zoomTransform_def Let_def emit_def)

lemma applyZoomTranslation_bound_svg:
  assumes "svg st = Some ns" and "originXScale st = Some origin" and "zoom st = Some z"
  shows "svg (applyZoomTranslation_bound st) =
     Some (map (\<lambda>n. n\<lparr>zoomProp := Some (zoomTransform origin st)\<rparr>) ns)"
  using assms
  by (simp add: applyZoomTranslation_bound_ready [OF assms] zoomRefreshed_def emit_def
      callZoomTransform_svg)

lemma applyZoomTranslation_bound_xScale:
  assumes "svg st = Some ns" and "originXScale st = Some origin" and "zoom st = Some z"
    and "ns \<noteq> []"
  shows "xScale (applyZoomTranslation_bound st) = Some (rescaleX (zoomTransform origin st) origin)"
proof -
  let ?st1 = "(emit ApplyCalled st)\<lparr>dontDispatch := True\<rparr>"
  have "xScale (callZoomTransform (zoomTransform origin st) ?st1) =
      Some (rescaleX (zoomTransform origin st) origin)"
    by (rule callZoomTransform_xScale [where ns = ns]) (simp_all add: assms emit_def)
  then show ?thesis
    by (simp add: applyZoomTranslation_bound_ready [OF assms(1-3)] zoomRefreshed_def emit_def)
qed

lemma applyZoomTranslation_bound_props:
  "props (applyZoomTranslation_bound st) = props st
   \<and> originXScale (applyZoomTranslation_bound st) = originXScale st
   \<and> zoom (applyZoomTranslation_bound st) = zoom st"
  by (simp add: applyZoomTranslation_bound_def emit_def zoomRefreshed_def Let_def
      callZoomTransform_keeps split: option.splits)

lemma applyZoomTranslation_bound_queue:
  "rafQueue (applyZoomTranslation_bound st) = rafQueue st
   \<and> aboutToApply (applyZoomTranslation_bound st) = aboutToApply st"
  by (simp add: applyZoomTranslation_bound_def emit_def zoomRefreshed_def Let_def
      callZoomTransform_keeps split: option.splits)

section \<open>Rebuilding the scale\<close>

lemma scaleCopy_id [simp]: "scaleCopy s = s"
  by (simp add: scaleCopy_def)

lemma rebuiltScale_props [simp]:
  "rebuiltScale (st\<lparr>trace := tr\<rparr>) = rebuiltScale st"
  by (simp add: rebuiltScale_def getWidthWithMargins_def)

lemma updateScaleDomain_value:
  "updateScaleDomain st = st\<lparr>xScale := Some (rebuiltScale st), trace := trace st @ [ScaleRebuilt]\<rparr>"
  by (simp add: updateScaleDomain_def rebuiltScale_def emit_def)

lemma connectedCallback_value:
  "connectedCallback st =
     initZoom (st\<lparr>xScale := Some (rebuiltScale st), originXScale := Some (rebuiltScale st),
                trace := trace st @ [ScaleRebuilt, OriginCopied]\<rparr>)"
  by (simp add: connectedCallback_def updateScaleDomain_value emit_def)

lemma structural_change_value:
  assumes "name \<in> set ATTRIBUTES_THAT_TRIGGER_REFRESH" and "zoom st \<noteq> None"
    and "oldValue \<noteq> (if newValue = Some ''null'' then None else newValue)"
  shows "attributeChangedCallback inherited name oldValue newValue st =
     applyZoomTranslation
       (st\<lparr>props := inherited (props st),
           xScale := Some (rebuiltScale (st\<lparr>props := inherited (props st)\<rparr>)),
           originXScale := Some (rebuiltScale (st\<lparr>props := inherited (props st)\<rparr>)),
           trace := trace st @ [ScaleRebuilt, OriginCopied]\<rparr>)"
proof -
  from assms(2) obtain z where "zoom st = Some z" by auto
  with assms(1,3) show ?thesis
    by (simp add: attributeChangedCallback_def Let_def updateScaleDomain_value emit_def)
qed

lemma zoomTransform_upd [simp]:
  "zoomTransform origin (st\<lparr>xScale := xs, originXScale := os, trace := tr\<rparr>) =
     zoomTransform origin st"
  "zoomTransform origin (st\<lparr>aboutToApply := ab, rafQueue := q\<rparr>) = zoomTransform origin st"
  by (simp_all add: zoomTransform_def zoomFactor_def zoomDx_def)

lemma applyZoomTranslation_bound_svg_any:
  assumes "originXScale st = Some origin" and "zoom st = Some z"
  shows "svg (applyZoomTranslation_bound st) =
     map_option (map (\<lambda>n. n\<lparr>zoomProp := Some (zoomTransform origin st)\<rparr>)) (svg st)"
proof (cases "svg st")
  case None
  then show ?thesis by (simp add: applyZoomTranslation_bound_def emit_def)
next
  case (Some ns)
  then show ?thesis by (simp add: applyZoomTranslation_bound_svg [OF Some assms])
qed

lemma applyZoomTranslation_bound_svg_cases:
  "svg (applyZoomTranslation_bound st) =
     (case (originXScale st, zoom st) of
        (Some origin, Some z) \<Rightarrow>
          map_option (map (\<lambda>n. n\<lparr>zoomProp := Some (zoomTransform origin st)\<rparr>)) (svg st)
      | _ \<Rightarrow> svg st)"
proof (cases "originXScale st")
  case None
  then show ?thesis
    by (simp add: applyZoomTranslation_bound_def emit_def Let_def split: option.splits)
next
  case origin: (Some origin)
  show ?thesis
  proof (cases "zoom st")
    case None
    with origin show ?thesis
      by (simp add: applyZoomTranslation_bound_def emit_def zoomRefreshed_def Let_def
          split: option.splits)
  next
    case (Some z)
    with origin show ?thesis
      by (simp add: applyZoomTranslation_bound_svg_any [OF origin Some])
  qed
qed

section \<open>The example states\<close>

text \<open>The definitions that a concrete state is evaluated with.\<close>

lemmas number_defs = jsub_def jmax_def jmin_def

lemmas d3_defs = normalize_def interpolateNumber_def bimap_def scaleApply_def
  scaleInvert_def scaleCopy_def zoomIdentity_def tscale_def ttranslate_def invertX_def
  rescaleX_def bindZoom_def

lemmas mixin_defs = emit_def constructed_def getWidthWithMargins_def updateScaleDomain_def
  initZoom_def displayStart_def displayEnd_def zoomed_def setNodeTransform_def
  callZoomTransform_def zoomRefreshed_def zoomFactor_def zoomDx_def
  applyZoomTranslation_bound_def applyZoomTranslation_def frameCallback_def
  animationFrame_def connectedCallback_def set_svg_def
  exampleProps_def freshNode_def exampleEngine_def

lemma exampleEngine_value:
  "l \<noteq> 0 \<Longrightarrow>
   exampleEngine l w s e =
     \<lparr>props = exampleProps l w s e,
      xScale = Some \<lparr>dom0 = Fin 1, dom1 = Fin (l + 1), rng0 = Fin 0, rng1 = Fin w\<rparr>,
      originXScale = Some \<lparr>dom0 = Fin 1, dom1 = Fin (l + 1), rng0 = Fin 0, rng1 = Fin w\<rparr>,
      zoom = Some \<lparr>scaleExtent = (Fin 1, PInf),
                   translateExtent = ((Fin 0, Fin 0), (Fin w, Fin 0)),
                   extent = ((Fin 0, Fin 0), (Fin w, Fin 0))\<rparr>,
      svg = Some [\<lparr>zoomProp = Some zoomIdentity, listening = True\<rparr>],
      dontDispatch = False, aboutToApply = True, rafQueue = 1,
      trace = [ScaleRebuilt, OriginCopied]\<rparr>"
  by (simp add: mixin_defs scaleCopy_def bindZoom_def)

lemma animationFrame_one:
  assumes "rafQueue st = 1"
  shows "animationFrame st =
     applyZoomTranslation_bound (st\<lparr>aboutToApply := False, rafQueue := 0\<rparr>)"
proof -
  from assms have "animationFrame st = frameCallback (st\<lparr>rafQueue := 0\<rparr>)"
    by (simp add: animationFrame_def)
  also have "\<dots> = applyZoomTranslation_bound (st\<lparr>rafQueue := 0, aboutToApply := False\<rparr>)"
    by (simp add: frameCallback_def)
  also have "st\<lparr>rafQueue := 0, aboutToApply := False\<rparr> =
      st\<lparr>aboutToApply := False, rafQueue := 0\<rparr>"
    by simp
  finally show ?thesis .
qed

lemma animationFrame_example:
  "l \<noteq> 0 \<Longrightarrow>
   animationFrame (exampleEngine l w s e) =
     applyZoomTranslation_bound ((exampleEngine l w s e)\<lparr>aboutToApply := False, rafQueue := 0\<rparr>)"
  by (rule animationFrame_one) (simp add: exampleEngine_value)

lemma readyEngine_value:
  "animationFrame (exampleEngine 10 500 (Some (Fin 1)) (Some (Fin 10))) =
     \<lparr>props = exampleProps 10 500 (Some (Fin 1)) (Some (Fin 10)),
      xScale = Some \<lparr>dom0 = Fin 1, dom1 = Fin 11, rng0 = Fin 0, rng1 = Fin 500\<rparr>,
      originXScale = Some \<lparr>dom0 = Fin 1, dom1 = Fin 11, rng0 = Fin 0, rng1 = Fin 500\<rparr>,
      zoom = Some \<lparr>scaleExtent = (Fin 1, PInf),
                   translateExtent = ((Fin 0, Fin 0), (Fin 500, Fin 0)),
                   extent = ((Fin 0, Fin 0), (Fin 500, Fin 0))\<rparr>,
      svg = Some [\<lparr>zoomProp = Some \<lparr>tk = Fin 1, tx = Fin 0, ty = Fin 0\<rparr>, listening = True\<rparr>],
      dontDispatch = False, aboutToApply = False, rafQueue = 0,
      trace = [ScaleRebuilt, OriginCopied, ApplyCalled, Refreshed]\<rparr>"
  by (simp add: exampleEngine_value)
    (simp add: mixin_defs d3_defs number_defs Let_def)

section \<open>Rounded arithmetic: basic facts\<close>

text \<open>With the identity for the rounding function, the rounded functions are the exact
  ones.\<close>

lemma jround_id [simp]: "jround (\<lambda>x. x) v = v"
  by (cases v) (simp_all add: jround_def)

lemma identity_rounding_ops:
  "jaddR (\<lambda>x. x) = jadd" "jsubR (\<lambda>x. x) = jsub" "jmulR (\<lambda>x. x) = jmul"
  "jdivR (\<lambda>x. x) = jdiv"
  by (simp_all add: fun_eq_iff jaddR_def jsubR_def jmulR_def jdivR_def)

lemma identity_rounding_d3:
  "normalizeR (\<lambda>x. x) = normalize" "interpolateNumberR (\<lambda>x. x) = interpolateNumber"
  "bimapR (\<lambda>x. x) = bimap" "scaleApplyR (\<lambda>x. x) = scaleApply"
  "scaleInvertR (\<lambda>x. x) = scaleInvert" "tscaleR (\<lambda>x. x) = tscale"
  "ttranslateR (\<lambda>x. x) = ttranslate" "invertXR (\<lambda>x. x) = invertX"
  "rescaleXR (\<lambda>x. x) = rescaleX"
  unfolding fun_eq_iff normalizeR_def normalize_def interpolateNumberR_def
    interpolateNumber_def bimapR_def bimap_def scaleApplyR_def scaleApply_def
    scaleInvertR_def scaleInvert_def tscaleR_def tscale_def ttranslateR_def ttranslate_def
    invertXR_def invertX_def rescaleXR_def rescaleX_def identity_rounding_ops
  by simp_all

lemma identity_rounding_mixin:
  "displayEndR (\<lambda>x. x) = displayEnd" "zoomedR (\<lambda>x. x) = zoomed"
  "callZoomTransformR (\<lambda>x. x) = callZoomTransform" "zoomFactorR (\<lambda>x. x) = zoomFactor"
  "zoomDxR (\<lambda>x. x) = zoomDx" "zoomTransformR (\<lambda>x. x) = zoomTransform"
  "applyZoomTranslation_boundR (\<lambda>x. x) = applyZoomTranslation_bound"
  "visibleRangeR (\<lambda>x. x) = visibleRange"
  unfolding fun_eq_iff displayEndR_def displayEnd_def zoomedR_def zoomed_def
    callZoomTransformR_def callZoomTransform_def zoomFactorR_def zoomFactor_def
    zoomDxR_def zoomDx_def zoomTransformR_def zoomTransform_def
    applyZoomTranslation_boundR_def applyZoomTranslation_bound_def
    visibleRangeR_def visibleRange_def identity_rounding_d3 identity_rounding_ops
  by simp_all

text \<open>On finite arguments.\<close>

lemma jround_Fin [simp]: "jround rnd (Fin x) = Fin (rnd x)"
  by (simp add: jround_def)

lemma jaddR_Fin [simp]: "jaddR rnd (Fin a) (Fin b) = Fin (rnd (a + b))"
  by (simp add: jaddR_def)

lemma jsubR_Fin [simp]: "jsubR rnd (Fin a) (Fin b) = Fin (rnd (a - b))"
  by (simp add: jsubR_def)

lemma jmulR_Fin [simp]: "jmulR rnd (Fin a) (Fin b) = Fin (rnd (a * b))"
  by (simp add: jmulR_def)

lemma jdivR_Fin: "b \<noteq> 0 \<Longrightarrow> jdivR rnd (Fin a) (Fin b) = Fin (rnd (a / b))"
  by (simp add: jdivR_def)

lemma bimapR_Fin:
  "bimapR rnd (Fin d0) (Fin d1) (Fin r0) (Fin r1) (Fin x) = Fin (bimapF rnd d0 d1 r0 r1 x)"
  by (simp add: bimapR_def bimapF_def normalizeR_def normalizeF_def interpolateNumberR_def
      interpolateF_def jdivR_Fin Let_def)

lemma rescaleXR_Fin:
  "kv \<noteq> 0 \<Longrightarrow>
   rescaleXR rnd \<lparr>tk = Fin kv, tx = Fin xv, ty = yv\<rparr>
       \<lparr>dom0 = Fin d0, dom1 = Fin d1, rng0 = Fin r0, rng1 = Fin r1\<rparr> =
     \<lparr>dom0 = Fin (bimapF rnd r0 r1 d0 d1 (rnd (rnd (r0 - xv) / kv))),
      dom1 = Fin (bimapF rnd r0 r1 d0 d1 (rnd (rnd (r1 - xv) / kv))),
      rng0 = Fin r0, rng1 = Fin r1\<rparr>"
  by (simp add: rescaleXR_def scaleCopy_def invertXR_def scaleInvertR_def jdivR_Fin bimapR_Fin)

text \<open>The latch and the scale, as for the exact functions.\<close>

lemma zoomedR_latched:
  "dontDispatch st \<Longrightarrow>
   dontDispatch (zoomedR rnd t st) \<and> trace (zoomedR rnd t st) = trace st"
  by (simp add: zoomedR_def Let_def split: option.splits prod.splits)

lemma zoomedR_keeps:
  "svg (zoomedR rnd t st) = svg st \<and> zoom (zoomedR rnd t st) = zoom st
   \<and> originXScale (zoomedR rnd t st) = originXScale st \<and> props (zoomedR rnd t st) = props st
   \<and> dontDispatch (zoomedR rnd t st) = dontDispatch st"
  by (simp add: zoomedR_def emit_def Let_def split: option.splits prod.splits)

lemma zoomedR_xScale:
  "originXScale st = Some origin \<Longrightarrow> xScale (zoomedR rnd t st) = Some (rescaleXR rnd t origin)"
  by (simp add: zoomedR_def emit_def Let_def split: prod.splits)

lemma foldR_keeps:
  "originXScale (fold (\<lambda>i s. zoomedR rnd t (setNodeTransform i t s)) js st) = originXScale st
   \<and> props (fold (\<lambda>i s. zoomedR rnd t (setNodeTransform i t s)) js st) = props st"
  by (induction js arbitrary: st) (simp_all add: zoomedR_keeps setNodeTransform_keeps)

lemma foldR_xScale:
  "originXScale st = Some origin \<Longrightarrow> js \<noteq> [] \<Longrightarrow>
   xScale (fold (\<lambda>i s. zoomedR rnd t (setNodeTransform i t s)) js st) =
     Some (rescaleXR rnd t origin)"
proof (induction js arbitrary: st)
  case Nil
  then show ?case by simp
next
  case (Cons j js)
  let ?st' = "zoomedR rnd t (setNodeTransform j t st)"
  have o: "originXScale ?st' = Some origin"
    using Cons.prems(1) by (simp add: zoomedR_keeps setNodeTransform_keeps)
  show ?case
  proof (cases "js = []")
    case True
    have "originXScale (setNodeTransform j t st) = Some origin"
      using Cons.prems(1) by (simp add: setNodeTransform_keeps)
    then show ?thesis using True by (simp add: zoomedR_xScale)
  next
    case False
    from Cons.IH [OF o False] show ?thesis by simp
  qed
qed

lemma callZoomTransformR_xScale:
  "svg st = Some ns \<Longrightarrow> ns \<noteq> [] \<Longrightarrow> originXScale st = Some origin \<Longrightarrow>
   xScale (callZoomTransformR rnd t st) = Some (rescaleXR rnd t origin)"
  by (simp add: callZoomTransformR_def foldR_xScale)

lemma callZoomTransformR_props:
  "props (callZoomTransformR rnd t st) = props st"
  by (cases "svg st") (simp_all add: callZoomTransformR_def foldR_keeps)

lemma applyZoomTranslation_boundR_xScale:
  assumes "svg st = Some ns" and "originXScale st = Some origin" and "zoom st = Some z"
    and "ns \<noteq> []"
  shows "xScale (applyZoomTranslation_boundR rnd st) =
     Some (rescaleXR rnd (zoomTransformR rnd origin st) origin)"
proof -
  let ?st1 = "(emit ApplyCalled st)\<lparr>dontDispatch := True\<rparr>"
  have t: "zoomTransformR rnd origin (emit ApplyCalled st) = zoomTransformR rnd origin st"
    by (simp add: zoomTransformR_def zoomFactorR_def zoomDxR_def emit_def)
  have "xScale (callZoomTransformR rnd (zoomTransformR rnd origin st) ?st1) =
      Some (rescaleXR rnd (zoomTransformR rnd origin st) origin)"
    by (rule callZoomTransformR_xScale [where ns = ns]) (simp_all add: assms emit_def)
  moreover have "applyZoomTranslation_boundR rnd st =
      zoomRefreshed
        ((callZoomTransformR rnd (zoomTransformR rnd origin st) ?st1)\<lparr>dontDispatch := False\<rparr>)"
    using assms(1-3) t
    by (simp add: applyZoomTranslation_boundR_def zoomTransformR_def Let_def emit_def)
  ultimately show ?thesis by (simp add: zoomRefreshed_def emit_def)
qed

lemma applyZoomTranslation_boundR_props:
  "props (applyZoomTranslation_boundR rnd st) = props st"
  by (simp add: applyZoomTranslation_boundR_def emit_def zoomRefreshed_def Let_def
      callZoomTransformR_props split: option.splits)

section \<open>Error bounds for the rounded scale\<close>

text \<open>
  How far the rounded functions are from the exact ones, for a rounding function that is
  accurate to \<open>u\<close>. Relative errors are followed through products and quotients with
  \<open>near\<close>, absolute errors through sums and differences.
\<close>

lemma accurateD: "accurate u rnd \<Longrightarrow> \<bar>rnd x - x\<bar> \<le> u * \<bar>x\<bar>"
  by (simp add: accurate_def)

lemma accurate_nonneg: "accurate u rnd \<Longrightarrow> 0 \<le> u"
  using accurateD [of u rnd 1] by simp

lemma accurate_zero: "accurate u rnd \<Longrightarrow> rnd 0 = 0"
  using accurateD [of u rnd 0] by simp

lemma near_refl: "0 \<le> r \<Longrightarrow> near r x x"
  by (simp add: near_def)

lemma near_mono: "near r a x \<Longrightarrow> r \<le> r' \<Longrightarrow> near r' a x"
proof -
  assume a: "near r a x" and b: "r \<le> r'"
  have "r * \<bar>x\<bar> \<le> r' * \<bar>x\<bar>" using b by (simp add: mult_right_mono)
  with a show ?thesis by (simp add: near_def)
qed

lemma near_minus: "near r a x \<Longrightarrow> near r (- a) (- x)"
  by (simp add: near_def abs_minus_commute)

lemma near_abs_le:
  assumes "near r a x" shows "\<bar>a\<bar> \<le> (1 + r) * \<bar>x\<bar>"
proof -
  have "\<bar>a\<bar> \<le> \<bar>x\<bar> + \<bar>a - x\<bar>" by simp
  with assms show ?thesis by (simp add: near_def algebra_simps)
qed

lemma near_abs_ge:
  assumes "near r a x" shows "(1 - r) * \<bar>x\<bar> \<le> \<bar>a\<bar>"
proof -
  have "\<bar>x\<bar> \<le> \<bar>a\<bar> + \<bar>a - x\<bar>" by simp
  with assms show ?thesis by (simp add: near_def algebra_simps)
qed

lemma near_rnd_gen:
  assumes "accurate u rnd" and "near r a x"
  shows "near (r + u * (1 + r)) (rnd a) x"
proof -
  have u: "0 \<le> u" by (rule accurate_nonneg [OF assms(1)])
  have "\<bar>rnd a - x\<bar> \<le> \<bar>rnd a - a\<bar> + \<bar>a - x\<bar>" by simp
  also have "\<dots> \<le> u * \<bar>a\<bar> + r * \<bar>x\<bar>"
    using accurateD [OF assms(1), of a] assms(2) by (simp add: near_def)
  also have "\<dots> \<le> u * ((1 + r) * \<bar>x\<bar>) + r * \<bar>x\<bar>"
    using mult_left_mono [OF near_abs_le [OF assms(2)] u] by simp
  finally show ?thesis by (simp add: near_def algebra_simps)
qed

lemma near_rnd:
  assumes "accurate u rnd" and "near (c * u) a x" and "c * u \<le> 1"
  shows "near ((c + 2) * u) (rnd a) x"
proof -
  have u: "0 \<le> u" by (rule accurate_nonneg [OF assms(1)])
  have "u * (c * u) \<le> u * 1" using assms(3) u by (rule mult_left_mono)
  then have "c * u + u * (1 + c * u) \<le> (c + 2) * u" by (simp add: algebra_simps)
  with near_rnd_gen [OF assms(1,2)] show ?thesis by (rule near_mono)
qed

lemma near_rnd0:
  assumes "accurate u rnd"
  shows "near u (rnd x) x"
  using accurateD [OF assms] by (simp add: near_def)

lemma near_mult_left: "near r b y \<Longrightarrow> near r (a * b) (a * y)"
proof -
  assume "near r b y"
  then have "\<bar>a\<bar> * \<bar>b - y\<bar> \<le> \<bar>a\<bar> * (r * \<bar>y\<bar>)" by (simp add: near_def mult_left_mono)
  moreover have "\<bar>a * b - a * y\<bar> = \<bar>a\<bar> * \<bar>b - y\<bar>"
    by (simp add: abs_mult right_diff_distrib [symmetric])
  ultimately show ?thesis by (simp add: near_def abs_mult algebra_simps)
qed

lemma near_div_right: "near r a x \<Longrightarrow> near r (a / k) (x / k)"
  using near_mult_left [of r a x "1 / k"] by simp

lemma near_nonzero:
  assumes "near r b y" and "r < 1" and "y \<noteq> 0"
  shows "b \<noteq> 0"
proof
  assume "b = 0"
  with assms(1) have "\<bar>y\<bar> \<le> r * \<bar>y\<bar>" by (simp add: near_def)
  moreover have "r * \<bar>y\<bar> < 1 * \<bar>y\<bar>" using assms(2,3) by (simp add: mult_strict_right_mono)
  ultimately show False by simp
qed

lemma near_divide_gen:
  assumes "near r1 a x" and "near r2 b y" and "r2 < 1" and "y \<noteq> 0"
  shows "near ((r1 + r2) / (1 - r2)) (a / b) (x / y)"
proof -
  have b0: "b \<noteq> 0" by (rule near_nonzero [OF assms(2-4)])
  have yb: "(1 - r2) * \<bar>y\<bar> \<le> \<bar>b\<bar>" by (rule near_abs_ge [OF assms(2)])
  have pos: "0 < 1 - r2" using assms(3) by simp
  have ypos: "0 < \<bar>y\<bar>" using assms(4) by simp
  have bpos: "0 < \<bar>b\<bar>" using b0 by simp
  have "a / b - x / y = ((a - x) * y - x * (b - y)) / (b * y)"
    using b0 assms(4) by (simp add: field_simps)
  then have "\<bar>a / b - x / y\<bar> = \<bar>(a - x) * y - x * (b - y)\<bar> / (\<bar>b\<bar> * \<bar>y\<bar>)"
    by (simp add: abs_mult)
  also have "\<dots> \<le> (\<bar>a - x\<bar> * \<bar>y\<bar> + \<bar>x\<bar> * \<bar>b - y\<bar>) / (\<bar>b\<bar> * \<bar>y\<bar>)"
  proof -
    have "\<bar>(a - x) * y - x * (b - y)\<bar> \<le> \<bar>(a - x) * y\<bar> + \<bar>x * (b - y)\<bar>"
      by (rule abs_triangle_ineq4)
    then show ?thesis using bpos ypos by (simp add: divide_right_mono abs_mult)
  qed
  also have "\<dots> \<le> ((r1 * \<bar>x\<bar>) * \<bar>y\<bar> + \<bar>x\<bar> * (r2 * \<bar>y\<bar>)) / (\<bar>b\<bar> * \<bar>y\<bar>)"
  proof -
    have 1: "\<bar>a - x\<bar> * \<bar>y\<bar> \<le> (r1 * \<bar>x\<bar>) * \<bar>y\<bar>"
      using assms(1) by (simp add: near_def mult_right_mono)
    have 2: "\<bar>x\<bar> * \<bar>b - y\<bar> \<le> \<bar>x\<bar> * (r2 * \<bar>y\<bar>)"
      using assms(2) by (simp add: near_def mult_left_mono)
    from 1 2 have "\<bar>a - x\<bar> * \<bar>y\<bar> + \<bar>x\<bar> * \<bar>b - y\<bar> \<le> (r1 * \<bar>x\<bar>) * \<bar>y\<bar> + \<bar>x\<bar> * (r2 * \<bar>y\<bar>)"
      by linarith
    then show ?thesis using bpos ypos by (simp add: divide_right_mono)
  qed
  also have "\<dots> = (r1 + r2) * \<bar>x\<bar> / \<bar>b\<bar>"
    using ypos bpos by (simp add: field_simps)
  also have "\<dots> \<le> (r1 + r2) * \<bar>x\<bar> / ((1 - r2) * \<bar>y\<bar>)"
  proof -
    have nn: "0 \<le> (r1 + r2) * \<bar>x\<bar>"
    proof -
      have "0 \<le> \<bar>a - x\<bar> * \<bar>y\<bar> + \<bar>x\<bar> * \<bar>b - y\<bar>" by simp
      also have "\<dots> \<le> (r1 * \<bar>x\<bar>) * \<bar>y\<bar> + \<bar>x\<bar> * (r2 * \<bar>y\<bar>)"
        using assms(1,2) by (intro add_mono) (simp_all add: near_def mult_right_mono mult_left_mono)
      also have "\<dots> = ((r1 + r2) * \<bar>x\<bar>) * \<bar>y\<bar>" by (simp add: algebra_simps)
      finally show ?thesis using ypos by (simp add: zero_le_mult_iff)
    qed
    have "0 < (1 - r2) * \<bar>y\<bar>" using pos ypos by simp
    then show ?thesis using yb nn by (intro divide_left_mono) (simp_all add: bpos)
  qed
  also have "\<dots> = (r1 + r2) / (1 - r2) * \<bar>x / y\<bar>"
    by (simp add: abs_divide)
  finally show ?thesis by (simp add: near_def)
qed

lemma near_divide:
  assumes "near (c1 * u) a x" and "near (c2 * u) b y" and "0 \<le> u" and "0 \<le> c1" and "0 \<le> c2"
    and "(c1 + c2 + 1) * c2 * u \<le> 1" and "y \<noteq> 0"
  shows "near ((c1 + c2 + 1) * u) (a / b) (x / y)"
proof -
  have c2u: "c2 * u < 1"
  proof -
    have "1 * (c2 * u) \<le> (c1 + c2 + 1) * (c2 * u)"
      using assms(3-5) by (intro mult_right_mono) simp_all
    then have "c2 * u \<le> (c1 + c2 + 1) * (c2 * u)" by simp
    also have "\<dots> \<le> 1" using assms(6) by (simp add: algebra_simps)
    finally have le: "c2 * u \<le> 1" .
    show ?thesis
    proof (rule ccontr)
      assume "\<not> c2 * u < 1"
      with le have e: "c2 * u = 1" by simp
      with assms(6) have "c1 + c2 + 1 \<le> 1" by (simp add: algebra_simps)
      with assms(4,5) have "c2 = 0" by simp
      with e show False by simp
    qed
  qed
  have pos: "0 < 1 - c2 * u" using c2u by simp
  have "(c1 * u + c2 * u) \<le> (c1 + c2 + 1) * u * (1 - c2 * u)"
  proof -
    have "u * ((c1 + c2 + 1) * c2 * u) \<le> u * 1" using assms(6,3) by (rule mult_left_mono)
    then show ?thesis by (simp add: algebra_simps)
  qed
  then have "(c1 * u + c2 * u) / (1 - c2 * u) \<le> (c1 + c2 + 1) * u"
    using pos by (simp add: pos_divide_le_eq)
  with near_divide_gen [OF assms(1,2) c2u assms(7)] show ?thesis by (rule near_mono)
qed

lemma near_trans_gen:
  assumes "near r1 a b" and "near r2 b c" and "0 \<le> r1"
  shows "near (r1 + r2 + r1 * r2) a c"
proof -
  have "\<bar>a - c\<bar> \<le> \<bar>a - b\<bar> + \<bar>b - c\<bar>" by simp
  also have "\<dots> \<le> r1 * \<bar>b\<bar> + r2 * \<bar>c\<bar>" using assms by (simp add: near_def)
  also have "\<dots> \<le> r1 * ((1 + r2) * \<bar>c\<bar>) + r2 * \<bar>c\<bar>"
    using mult_left_mono [OF near_abs_le [OF assms(2)] assms(3)] by simp
  finally show ?thesis by (simp add: near_def algebra_simps)
qed

lemma near_trans:
  assumes "near (c1 * u) a b" and "near (c2 * u) b c" and "0 \<le> u" and "0 \<le> c1"
    and "c1 * c2 * u \<le> 1"
  shows "near ((c1 + c2 + 1) * u) a c"
proof -
  have "u * (c1 * c2 * u) \<le> u * 1" using assms(5,3) by (rule mult_left_mono)
  then have "c1 * u + c2 * u + (c1 * u) * (c2 * u) \<le> (c1 + c2 + 1) * u"
    by (simp add: algebra_simps)
  moreover have "0 \<le> c1 * u" using assms(3,4) by simp
  ultimately show ?thesis using near_trans_gen [OF assms(1,2)] near_mono by blast
qed

lemma near_add:
  assumes "near r a x" and "near r b y" and "0 \<le> x * y"
  shows "near r (a + b) (x + y)"
proof -
  have s: "\<bar>x\<bar> + \<bar>y\<bar> = \<bar>x + y\<bar>"
    using assms(3) by (auto simp add: zero_le_mult_iff abs_if)
  have "\<bar>a + b - (x + y)\<bar> \<le> \<bar>a - x\<bar> + \<bar>b - y\<bar>" by simp
  also have "\<dots> \<le> r * \<bar>x\<bar> + r * \<bar>y\<bar>" using assms(1,2) by (simp add: near_def)
  also have "\<dots> = r * \<bar>x + y\<bar>" by (simp add: s [symmetric] algebra_simps)
  finally show ?thesis by (simp add: near_def)
qed

lemma near_nonneg:
  assumes "near r a x" and "r \<le> 1" and "0 \<le> x"
  shows "0 \<le> a"
proof -
  have "x - a \<le> \<bar>a - x\<bar>" by simp
  also have "\<dots> \<le> r * x" using assms(1,3) by (simp add: near_def)
  also have "\<dots> \<le> 1 * x" using assms(2,3) by (rule mult_right_mono)
  finally show ?thesis by simp
qed

lemma near_pos:
  assumes "near r a x" and "r < 1" and "0 < x"
  shows "0 < a"
proof -
  have "x - a \<le> \<bar>a - x\<bar>" by simp
  also have "\<dots> \<le> r * x" using assms(1,3) by (simp add: near_def)
  also have "\<dots> < 1 * x" using assms(2,3) by (simp add: mult_strict_right_mono)
  finally show ?thesis by simp
qed

lemma abs_rnd:
  assumes "accurate u rnd" and "\<bar>a - x\<bar> \<le> d" and "\<bar>x\<bar> \<le> m" and "d \<le> m"
  shows "\<bar>rnd a - x\<bar> \<le> d + 2 * u * m"
proof -
  have u: "0 \<le> u" by (rule accurate_nonneg [OF assms(1)])
  have "\<bar>a\<bar> \<le> \<bar>x\<bar> + \<bar>a - x\<bar>" by simp
  with assms(2-4) have "\<bar>a\<bar> \<le> 2 * m" by linarith
  then have "u * \<bar>a\<bar> \<le> u * (2 * m)" using u by (rule mult_left_mono)
  moreover have "\<bar>rnd a - x\<bar> \<le> \<bar>rnd a - a\<bar> + \<bar>a - x\<bar>" by simp
  ultimately show ?thesis using accurateD [OF assms(1), of a] assms(2) by (simp add: algebra_simps)
qed


lemma small_facts:
  assumes "accurate u rnd" and "2 \<le> l" and "1000 * (u * (l + 1)) \<le> 1"
  shows "0 \<le> u" and "u \<le> 1 / 3000" and "3 * u \<le> u * (l + 1)" and "u * (l + 1) \<le> 1 / 1000"
proof -
  show u: "0 \<le> u" by (rule accurate_nonneg [OF assms(1)])
  have "u * 3 \<le> u * (l + 1)" using assms(2) u by (intro mult_left_mono) simp_all
  then show 3: "3 * u \<le> u * (l + 1)" by simp
  show e: "u * (l + 1) \<le> 1 / 1000" using assms(3) by simp
  from 3 e show "u \<le> 1 / 3000" by simp
qed

lemma rnd_length:
  assumes acc: "accurate u rnd" and l2: "2 \<le> l" and sm: "1000 * (u * (l + 1)) \<le> 1"
  shows "\<bar>rnd (l + 1) - (l + 1)\<bar> \<le> u * (l + 1)" and "\<not> rnd (l + 1) < 1"
proof -
  note f = small_facts [OF acc l2 sm]
  show a: "\<bar>rnd (l + 1) - (l + 1)\<bar> \<le> u * (l + 1)"
    using accurateD [OF acc, of "l + 1"] l2 by simp
  from a f(4) l2 show "\<not> rnd (l + 1) < 1" by linarith
qed

lemma apply_close:
  assumes acc: "accurate u rnd" and l2: "2 \<le> l" and sm: "1000 * (u * (l + 1)) \<le> 1"
  shows "near (12 * u) (bimapF rnd 1 (rnd (l + 1)) 0 w s) (w * ((s - 1) / l))"
proof -
  note f = small_facts [OF acc l2 sm]
  note L = rnd_length [OF acc l2 sm]
  define L1 where "L1 = rnd (l + 1)"
  have d: "near (3 / 2 * u) (L1 - 1) l"
  proof -
    have "u * (l + 1) \<le> u * (3 / 2 * l)" using l2 f(1) by (intro mult_left_mono) simp_all
    moreover have "\<bar>L1 - 1 - l\<bar> = \<bar>rnd (l + 1) - (l + 1)\<bar>" by (simp add: L1_def algebra_simps)
    ultimately show ?thesis using L(1) l2 by (simp add: near_def)
  qed
  have bn: "near ((3 / 2 + 2) * u) (rnd (L1 - 1)) l"
    by (rule near_rnd [OF acc d]) (use f(2) in simp)
  have bn0: "rnd (L1 - 1) \<noteq> 0"
    by (rule near_nonzero [OF bn]) (use f(2) l2 in simp_all)
  have num: "near (1 * u) (rnd (s - 1)) (s - 1)"
    using near_rnd0 [OF acc] by simp
  have q: "near ((1 + (3 / 2 + 2) + 1) * u) (rnd (s - 1) / rnd (L1 - 1)) ((s - 1) / l)"
    by (rule near_divide [OF num bn f(1)]) (use f(2) l2 in simp_all)
  have ts: "near ((1 + (3 / 2 + 2) + 1 + 2) * u) (rnd (rnd (s - 1) / rnd (L1 - 1))) ((s - 1) / l)"
    by (rule near_rnd [OF acc q]) (use f(2) in simp)
  have m: "near ((1 + (3 / 2 + 2) + 1 + 2) * u) (w * rnd (rnd (s - 1) / rnd (L1 - 1)))
      (w * ((s - 1) / l))"
    by (rule near_mult_left [OF ts])
  have r1: "near ((1 + (3 / 2 + 2) + 1 + 2 + 2) * u) (rnd (w * rnd (rnd (s - 1) / rnd (L1 - 1))))
      (w * ((s - 1) / l))"
    by (rule near_rnd [OF acc m]) (use f(2) in simp)
  have r2: "near ((1 + (3 / 2 + 2) + 1 + 2 + 2 + 2) * u)
      (rnd (rnd (w * rnd (rnd (s - 1) / rnd (L1 - 1))))) (w * ((s - 1) / l))"
    by (rule near_rnd [OF acc r1]) (use f(2) in simp)
  have "bimapF rnd 1 L1 0 w s = rnd (rnd (w * rnd (rnd (s - 1) / rnd (L1 - 1))))"
    using L(2) bn0 by (simp add: bimapF_def interpolateF_def normalizeF_def L1_def
        accurate_zero [OF acc])
  moreover have "(1 + (3 / 2 + 2) + 1 + 2 + 2 + 2) * u \<le> 12 * u" using f(1) by simp
  ultimately show ?thesis using near_mono [OF r2] by (simp add: L1_def)
qed


lemma offset_close:
  assumes acc: "accurate u rnd" and us: "u \<le> 1 / 3000"
  shows "near (4 * u) (rnd (0 + rnd (k * d))) (k * d)"
proof -
  have a: "near (0 * u) (k * d) (k * d)" by (simp add: near_refl)
  have b: "near ((0 + 2) * u) (rnd (k * d)) (k * d)"
    by (rule near_rnd [OF acc a]) simp
  have c: "near ((0 + 2 + 2) * u) (rnd (rnd (k * d))) (k * d)"
    by (rule near_rnd [OF acc b]) (use us in simp)
  then show ?thesis by simp
qed

lemma start_point_close:
  assumes acc: "accurate u rnd" and us: "u \<le> 1 / 3000" and k: "k \<noteq> 0"
  shows "near (8 * u) (rnd (rnd (0 - rnd (0 + rnd (k * d))) / k)) (- d)"
proof -
  have a: "near (4 * u) (- rnd (0 + rnd (k * d))) (- (k * d))"
    by (rule near_minus [OF offset_close [OF acc us]])
  have b: "near ((4 + 2) * u) (rnd (- rnd (0 + rnd (k * d)))) (- (k * d))"
    by (rule near_rnd [OF acc a]) (use us in simp)
  have c: "near ((4 + 2) * u) (rnd (- rnd (0 + rnd (k * d))) / k) (- (k * d) / k)"
    by (rule near_div_right [OF b])
  have e: "near ((4 + 2 + 2) * u) (rnd (rnd (- rnd (0 + rnd (k * d))) / k)) (- (k * d) / k)"
    by (rule near_rnd [OF acc c]) (use us in simp)
  then show ?thesis using k by simp
qed

lemma end_point_close:
  assumes acc: "accurate u rnd" and us: "u \<le> 1 / 3000" and k: "0 < k"
    and sgn: "0 \<le> w * - d"
  shows "near (8 * u) (rnd (rnd (w - rnd (0 + rnd (k * d))) / k)) (w / k - d)"
proof -
  have u0: "0 \<le> u" by (rule accurate_nonneg [OF acc])
  have a: "near (4 * u) (- rnd (0 + rnd (k * d))) (- (k * d))"
    by (rule near_minus [OF offset_close [OF acc us]])
  have w: "near (4 * u) w w" using u0 by (simp add: near_refl)
  have "0 \<le> k" using k by simp
  then have "0 \<le> k * (w * - d)" using sgn by (rule mult_nonneg_nonneg)
  then have s: "0 \<le> w * - (k * d)" by (simp add: algebra_simps)
  have "near (4 * u) (w + - rnd (0 + rnd (k * d))) (w + - (k * d))"
    by (rule near_add [OF w a s])
  then have b: "near (4 * u) (w - rnd (0 + rnd (k * d))) (w - k * d)" by simp
  have c: "near ((4 + 2) * u) (rnd (w - rnd (0 + rnd (k * d)))) (w - k * d)"
    by (rule near_rnd [OF acc b]) (use us in simp)
  have e: "near ((4 + 2) * u) (rnd (w - rnd (0 + rnd (k * d))) / k) ((w - k * d) / k)"
    by (rule near_div_right [OF c])
  have g: "near ((4 + 2 + 2) * u) (rnd (rnd (w - rnd (0 + rnd (k * d))) / k)) ((w - k * d) / k)"
    by (rule near_rnd [OF acc e]) (use us in simp)
  have "(w - k * d) / k = w / k - d" using k by (simp add: field_simps)
  with g show ?thesis by simp
qed

lemma inverse_close:
  assumes acc: "accurate u rnd" and us: "u \<le> 1 / 3000" and "near u b y" and "0 < y"
  shows "0 < b" and "\<bar>1 / b - 1 / y\<bar> \<le> 2 * u * (1 / y)"
proof -
  have u0: "0 \<le> u" by (rule accurate_nonneg [OF acc])
  show "0 < b" by (rule near_pos [OF assms(3)]) (use us assms(4) in simp_all)
  have one: "near 0 1 (1 :: real)" by (simp add: near_refl)
  have "near ((0 + u) / (1 - u)) (1 / b) (1 / y)"
    by (rule near_divide_gen [OF one assms(3)]) (use us assms(4) in simp_all)
  moreover have "(0 + u) / (1 - u) \<le> 2 * u"
  proof -
    have "u * (2 * u) \<le> u * 1" using us u0 by (intro mult_left_mono) simp_all
    then have "u \<le> 2 * u * (1 - u)" by (simp add: algebra_simps)
    then show ?thesis using us by (simp add: pos_divide_le_eq)
  qed
  ultimately have "near (2 * u) (1 / b) (1 / y)" by (rule near_mono)
  then show "\<bar>1 / b - 1 / y\<bar> \<le> 2 * u * (1 / y)"
    using assms(4) by (simp add: near_def)
qed


lemma factor_close:
  assumes acc: "accurate u rnd" and sm: "1000 * (u * (l + 1)) \<le> 1"
    and s1: "1 \<le> s" and se: "s + 1 \<le> e" and el: "e \<le> l"
    and a2: "a2 = rnd (rnd (1 + e) - s)"
    and k: "k = max 1 (rnd (l / a2))"
    and k': "k' = (if k = 1 then 1 else rnd (1 * k))"
  shows "a2 \<noteq> 0" and "0 < k'" and "\<bar>1 / k' - (1 + e - s) / l\<bar> \<le> 10 * u"
proof -
  from s1 se el have l2: "2 \<le> l" by simp
  note f = small_facts [OF acc l2 sm]
  define n where "n = 1 + e - s"
  have n2: "2 \<le> n" and nl: "n \<le> l" using s1 se el by (simp_all add: n_def)
  define r where "r = (l + 1) / l"
  have ratio: "r \<le> 3 / 2" using l2 by (simp add: r_def field_simps)
  have ul: "u * r \<le> u * (3 / 2)" using ratio f(1) by (rule mult_left_mono)
  have "\<bar>rnd (1 + e) - (1 + e)\<bar> \<le> u * \<bar>1 + e\<bar>" by (rule accurateD [OF acc])
  also have "\<dots> \<le> u * (l + 1)" using s1 se el f(1) by (intro mult_left_mono) simp_all
  finally have a1: "\<bar>rnd (1 + e) - (1 + e)\<bar> \<le> u * (l + 1)" .
  then have d: "\<bar>(rnd (1 + e) - s) - n\<bar> \<le> u * (l + 1)" by (simp add: n_def algebra_simps)
  have m1: "\<bar>n\<bar> \<le> l + 1" using n2 nl by simp
  have m2: "u * (l + 1) \<le> l + 1" using f(4) l2 by linarith
  have "\<bar>rnd (rnd (1 + e) - s) - n\<bar> \<le> u * (l + 1) + 2 * u * (l + 1)"
    by (rule abs_rnd [OF acc d m1 m2])
  then have a2n: "\<bar>a2 - n\<bar> \<le> 3 * (u * (l + 1))" by (simp add: a2)
  from a2n n2 f(4) have a2pos: "0 < a2" by linarith
  then show "a2 \<noteq> 0" by simp
  from a2n nl f(4) have a2le: "a2 \<le> l + 1" by linarith
  have q0: "0 < l / a2" using a2pos l2 by simp
  have nq: "near u (rnd (l / a2)) (l / a2)" by (rule near_rnd0 [OF acc])
  note iq = inverse_close [OF acc f(2) nq q0]
  have "1 / (l / a2) = a2 / l" by simp
  with iq(2) have "\<bar>1 / rnd (l / a2) - a2 / l\<bar> \<le> 2 * u * (a2 / l)" by simp
  also have "\<dots> \<le> 2 * u * r"
    unfolding r_def using a2le l2 f(1) by (intro mult_left_mono divide_right_mono) simp_all
  also have "\<dots> = 2 * (u * r)" by simp
  also have "\<dots> \<le> 3 * u" using ul by linarith
  finally have b1: "\<bar>1 / rnd (l / a2) - a2 / l\<bar> \<le> 3 * u" .
  have "\<bar>a2 / l - n / l\<bar> = \<bar>a2 - n\<bar> / l"
    using l2 by (simp add: diff_divide_distrib [symmetric])
  also have "\<dots> \<le> 3 * (u * (l + 1)) / l"
    using a2n l2 by (intro divide_right_mono) simp_all
  also have "\<dots> = 3 * (u * r)" by (simp add: r_def)
  also have "\<dots> \<le> 9 / 2 * u" using ul by linarith
  finally have b2: "\<bar>a2 / l - n / l\<bar> \<le> 9 / 2 * u" .
  from b1 b2 have b3: "\<bar>1 / rnd (l / a2) - n / l\<bar> \<le> 15 / 2 * u" by linarith
  have nl1: "n / l \<le> 1" using nl l2 by simp
  have k1: "1 \<le> k" by (simp add: k)
  have bk: "\<bar>1 / k - n / l\<bar> \<le> 15 / 2 * u"
  proof (cases "1 \<le> rnd (l / a2)")
    case True
    then have "k = rnd (l / a2)" by (simp add: k max_def)
    with b3 show ?thesis by simp
  next
    case False
    then have k1: "k = 1" by (simp add: k max_def)
    from False iq(1) have "1 < 1 / rnd (l / a2)" by simp
    with b3 nl1 show ?thesis by (simp add: k1)
  qed
  have kk: "0 < k' \<and> \<bar>1 / k' - 1 / k\<bar> \<le> 2 * u"
  proof (cases "k = 1")
    case True
    then show ?thesis using f(1) by (simp add: k')
  next
    case False
    then have e: "k' = rnd k" by (simp add: k')
    have kp: "0 < k" using k1 by simp
    have nk: "near u (rnd k) k" by (rule near_rnd0 [OF acc])
    note ik = inverse_close [OF acc f(2) nk kp]
    have "1 / k \<le> 1" using k1 by simp
    then have "2 * u * (1 / k) \<le> 2 * u * 1" using f(1) by (intro mult_left_mono) simp_all
    with ik show ?thesis by (simp add: e)
  qed
  then show "0 < k'" by simp
  from kk bk have "\<bar>1 / k' - n / l\<bar> \<le> 10 * u" using f(1) by linarith
  then show "\<bar>1 / k' - (1 + e - s) / l\<bar> \<le> 10 * u" by (simp add: n_def)
qed


lemma start_point_abs:
  assumes acc: "accurate u rnd" and us: "u \<le> 1 / 3000" and k: "k \<noteq> 0"
    and r: "near (12 * u) rh (w * t)" and t0: "0 \<le> t" and t1: "t \<le> 1"
  shows "\<bar>rnd (rnd (0 - rnd (0 + rnd (k * - rh))) / k) - w * t\<bar> \<le> 40 * u * \<bar>w\<bar>"
proof -
  have u0: "0 \<le> u" by (rule accurate_nonneg [OF acc])
  have "near (8 * u) (rnd (rnd (0 - rnd (0 + rnd (k * - rh))) / k)) (- (- rh))"
    by (rule start_point_close [OF acc us k])
  then have a: "near (8 * u) (rnd (rnd (0 - rnd (0 + rnd (k * - rh))) / k)) rh" by simp
  have "near ((8 + 12 + 1) * u) (rnd (rnd (0 - rnd (0 + rnd (k * - rh))) / k)) (w * t)"
    by (rule near_trans [OF a r u0]) (use us in simp_all)
  then have b: "\<bar>rnd (rnd (0 - rnd (0 + rnd (k * - rh))) / k) - w * t\<bar> \<le> 21 * u * \<bar>w * t\<bar>"
    by (simp add: near_def)
  have "\<bar>w * t\<bar> = \<bar>w\<bar> * t" using t0 by (simp add: abs_mult)
  also have "\<dots> \<le> \<bar>w\<bar> * 1" using t1 by (intro mult_left_mono) simp_all
  finally have "\<bar>w * t\<bar> \<le> \<bar>w\<bar>" by simp
  then have "21 * u * \<bar>w * t\<bar> \<le> 21 * u * \<bar>w\<bar>" using u0 by (intro mult_left_mono) simp_all
  also have "\<dots> \<le> 40 * u * \<bar>w\<bar>" using u0 by (intro mult_right_mono) simp_all
  finally show ?thesis using b by linarith
qed

lemma end_point_abs:
  assumes acc: "accurate u rnd" and us: "u \<le> 1 / 3000" and k: "0 < k"
    and kc: "\<bar>1 / k - v\<bar> \<le> 10 * u"
    and r: "near (12 * u) rh (w * t)" and t0: "0 \<le> t" and v0: "0 \<le> v" and vt: "v + t \<le> 1"
  shows "\<bar>rnd (rnd (w - rnd (0 + rnd (k * - rh))) / k) - w * (v + t)\<bar> \<le> 40 * u * \<bar>w\<bar>"
proof -
  have u0: "0 \<le> u" by (rule accurate_nonneg [OF acc])
  define uw where "uw = u * \<bar>w\<bar>"
  have uw0: "0 \<le> uw" using u0 by (simp add: uw_def)
  define y where "y = rnd (rnd (w - rnd (0 + rnd (k * - rh))) / k)"
  define z where "z = w / k + rh"
  have sgn: "0 \<le> w * rh"
  proof (cases "0 \<le> w")
    case True
    then have "0 \<le> w * t" using t0 by simp
    then have "0 \<le> rh" by (rule near_nonneg [OF r, rotated]) (use us in simp)
    with True show ?thesis by simp
  next
    case False
    then have "0 \<le> - (w * t)" using t0 by (simp add: mult_nonpos_nonneg)
    then have "0 \<le> - rh" by (rule near_nonneg [OF near_minus [OF r], rotated]) (use us in simp)
    with False show ?thesis by (simp add: mult_nonpos_nonpos)
  qed
  then have sgn': "0 \<le> w * - (- rh)" by simp
  have "near (8 * u) y (w / k - (- rh))"
    unfolding y_def by (rule end_point_close [OF acc us k sgn'])
  then have yz: "\<bar>y - z\<bar> \<le> 8 * u * \<bar>z\<bar>" by (simp add: near_def z_def)
  have t1: "t \<le> 1" using v0 vt by simp
  have "\<bar>w * t\<bar> = \<bar>w\<bar> * t" using t0 by (simp add: abs_mult)
  also have "\<dots> \<le> \<bar>w\<bar> * 1" using t1 by (intro mult_left_mono) simp_all
  finally have wt: "\<bar>w * t\<bar> \<le> \<bar>w\<bar>" by simp
  have "\<bar>rh - w * t\<bar> \<le> 12 * u * \<bar>w * t\<bar>" using r by (simp add: near_def)
  also have "\<dots> \<le> 12 * u * \<bar>w\<bar>" using wt u0 by (intro mult_left_mono) simp_all
  finally have e1: "\<bar>rh - w * t\<bar> \<le> 12 * uw" by (simp add: uw_def)
  have "\<bar>w / k - w * v\<bar> = \<bar>w\<bar> * \<bar>1 / k - v\<bar>"
    by (simp add: abs_mult [symmetric] algebra_simps)
  also have "\<dots> \<le> \<bar>w\<bar> * (10 * u)" using kc by (intro mult_left_mono) simp_all
  finally have e2: "\<bar>w / k - w * v\<bar> \<le> 10 * uw" by (simp add: uw_def ac_simps)
  have "z - w * (v + t) = (w / k - w * v) + (rh - w * t)" by (simp add: z_def algebra_simps)
  with e1 e2 have e3: "\<bar>z - w * (v + t)\<bar> \<le> 22 * uw" by linarith
  have "\<bar>w * (v + t)\<bar> = \<bar>w\<bar> * (v + t)" using v0 t0 by (simp add: abs_mult)
  also have "\<dots> \<le> \<bar>w\<bar> * 1" using vt by (intro mult_left_mono) simp_all
  finally have e4: "\<bar>w * (v + t)\<bar> \<le> \<bar>w\<bar>" by simp
  have "22 * uw \<le> \<bar>w\<bar>"
  proof -
    have "u * \<bar>w\<bar> \<le> 1 / 3000 * \<bar>w\<bar>" using us by (intro mult_right_mono) simp_all
    then show ?thesis by (simp add: uw_def)
  qed
  with e3 e4 have z2: "\<bar>z\<bar> \<le> 2 * \<bar>w\<bar>" by linarith
  have "8 * u * \<bar>z\<bar> \<le> 8 * u * (2 * \<bar>w\<bar>)" using z2 u0 by (intro mult_left_mono) simp_all
  with yz have e5: "\<bar>y - z\<bar> \<le> 16 * uw" by (simp add: uw_def)
  from e3 e5 uw0 have "\<bar>y - w * (v + t)\<bar> \<le> 40 * uw" by linarith
  then show ?thesis by (simp add: y_def uw_def)
qed


lemma normalize_up_close:
  assumes acc: "accurate u rnd" and us: "u \<le> 1 / 3000" and w: "0 < w"
    and t0: "0 \<le> t" and t1: "t \<le> 1" and y: "\<bar>y - w * t\<bar> \<le> 40 * u * \<bar>w\<bar>"
  shows "\<bar>normalizeF rnd 0 w y - t\<bar> \<le> 50 * u"
proof -
  have u0: "0 \<le> u" by (rule accurate_nonneg [OF acc])
  have ny: "near (1 * u) (rnd y) y" using near_rnd0 [OF acc] by simp
  have nw: "near (1 * u) (rnd w) w" using near_rnd0 [OF acc] by simp
  have w0: "rnd w \<noteq> 0" by (rule near_nonzero [OF nw]) (use us w in simp_all)
  have q: "near ((1 + 1 + 1) * u) (rnd y / rnd w) (y / w)"
    by (rule near_divide [OF ny nw u0]) (use us w in simp_all)
  have "near ((1 + 1 + 1 + 2) * u) (rnd (rnd y / rnd w)) (y / w)"
    by (rule near_rnd [OF acc q]) (use us in simp)
  then have a: "\<bar>rnd (rnd y / rnd w) - y / w\<bar> \<le> 5 * u * \<bar>y / w\<bar>" by (simp add: near_def)
  have "y / w - t = (y - w * t) / w" using w by (simp add: field_simps)
  then have "\<bar>y / w - t\<bar> = \<bar>y - w * t\<bar> / w" using w by (simp add: abs_divide)
  also have "\<dots> \<le> (40 * u * \<bar>w\<bar>) / w" using y w by (intro divide_right_mono) simp_all
  also have "\<dots> = 40 * u" using w by simp
  finally have b: "\<bar>y / w - t\<bar> \<le> 40 * u" .
  with t0 t1 us have "\<bar>y / w\<bar> \<le> 2" by linarith
  then have "5 * u * \<bar>y / w\<bar> \<le> 5 * u * 2" using u0 by (intro mult_left_mono) simp_all
  with a b have "\<bar>rnd (rnd y / rnd w) - t\<bar> \<le> 50 * u" by linarith
  then show ?thesis using w0 by (simp add: normalizeF_def)
qed

lemma normalize_down_close:
  assumes acc: "accurate u rnd" and us: "u \<le> 1 / 3000" and w: "w < 0"
    and t0: "0 \<le> t" and t1: "t \<le> 1" and y: "\<bar>y - w * t\<bar> \<le> 40 * u * \<bar>w\<bar>"
  shows "\<bar>normalizeF rnd w 0 y - (1 - t)\<bar> \<le> 50 * u"
proof -
  have u0: "0 \<le> u" by (rule accurate_nonneg [OF acc])
  define m where "m = - w"
  have m: "0 < m" using w by (simp add: m_def)
  define um where "um = u * m"
  have um0: "0 \<le> um" using u0 m by (simp add: um_def)
  define n where "n = m * (1 - t)"
  have n0: "\<bar>n\<bar> \<le> m"
  proof -
    have "\<bar>n\<bar> = m * (1 - t)" using m t1 by (simp add: n_def abs_mult)
    also have "\<dots> \<le> m * 1" using m t0 by (intro mult_left_mono) simp_all
    finally show ?thesis by simp
  qed
  have "(y - w) - n = y - w * t" by (simp add: n_def m_def algebra_simps)
  with y have a: "\<bar>(y - w) - n\<bar> \<le> 40 * um" using w by (simp add: um_def m_def)
  have umm: "40 * um \<le> m"
  proof -
    have "u * m \<le> 1 / 3000 * m" using us m by (intro mult_right_mono) simp_all
    then show ?thesis unfolding um_def using m by linarith
  qed
  have "\<bar>rnd (y - w) - n\<bar> \<le> 40 * um + 2 * u * m" by (rule abs_rnd [OF acc a n0 umm])
  moreover have "2 * u * m = 2 * um" by (simp add: um_def)
  ultimately have b: "\<bar>rnd (y - w) - n\<bar> \<le> 42 * um" by linarith
  have nd: "near u (rnd m) m" by (rule near_rnd0 [OF acc])
  note i = inverse_close [OF acc us nd m]
  have d0: "rnd m \<noteq> 0" using i(1) by simp
  have i2: "\<bar>1 / rnd m - 1 / m\<bar> \<le> 2 * u / m" using i(2) by simp
  have um_over: "um / m = u" using m by (simp add: um_def)
  have c1: "\<bar>1 / rnd m\<bar> \<le> (1 + 2 * u) / m"
  proof -
    have tri: "\<bar>p\<bar> \<le> \<bar>q\<bar> + \<bar>p - q\<bar>" for p q :: real by arith
    have "\<bar>1 / rnd m\<bar> \<le> \<bar>1 / m\<bar> + \<bar>1 / rnd m - 1 / m\<bar>" by (rule tri)
    also have "\<dots> \<le> 1 / m + 2 * u / m" using i2 m by simp
    also have "\<dots> = (1 + 2 * u) / m" by (simp add: add_divide_distrib)
    finally show ?thesis .
  qed
  have "rnd (y - w) / rnd m - (1 - t) =
      (rnd (y - w) - n) * (1 / rnd m) + n * (1 / rnd m - 1 / m)"
    using m d0 by (simp add: n_def field_simps)
  then have "\<bar>rnd (y - w) / rnd m - (1 - t)\<bar> \<le>
      \<bar>rnd (y - w) - n\<bar> * \<bar>1 / rnd m\<bar> + \<bar>n\<bar> * \<bar>1 / rnd m - 1 / m\<bar>"
    by (simp only: abs_mult [symmetric] abs_triangle_ineq)
  also have "\<dots> \<le> (42 * um) * ((1 + 2 * u) / m) + m * (2 * u / m)"
    using b c1 n0 i2 um0 m by (intro add_mono mult_mono) simp_all
  also have "\<dots> = 42 * u * (1 + 2 * u) + 2 * u"
    using m by (simp add: um_def)
  also have "\<dots> \<le> 46 * u"
  proof -
    have "u * (42 * u) \<le> u * 1" using us u0 by (intro mult_left_mono) simp_all
    then show ?thesis by (simp add: algebra_simps)
  qed
  finally have q: "\<bar>rnd (y - w) / rnd m - (1 - t)\<bar> \<le> 46 * u" .
  have "\<bar>rnd (rnd (y - w) / rnd m) - (1 - t)\<bar> \<le> 46 * u + 2 * u * 1"
    by (rule abs_rnd [OF acc q]) (use t0 t1 us in simp_all)
  then have "\<bar>rnd (rnd (y - w) / rnd m) - (1 - t)\<bar> \<le> 50 * u" using u0 by simp
  then show ?thesis using d0 by (simp add: normalizeF_def m_def)
qed


lemma scaled_close:
  assumes acc: "accurate u rnd" and l2: "2 \<le> l" and sm: "1000 * (u * (l + 1)) \<le> 1"
    and t0: "0 \<le> t" and t1: "t \<le> 1" and p: "\<bar>p - t\<bar> \<le> 52 * u"
  shows "\<bar>rnd (rnd (l + 1) * p) - (l + 1) * t\<bar> \<le> 56 * (u * (l + 1))"
proof -
  note f = small_facts [OF acc l2 sm]
  note L = rnd_length [OF acc l2 sm]
  define eta where "eta = u * (l + 1)"
  have eta: "0 \<le> eta" "eta \<le> 1 / 1000" "3 * u \<le> eta"
    using f l2 by (simp_all add: eta_def)
  have p2: "\<bar>p\<bar> \<le> 2" using p t0 t1 f(2) by linarith
  have "rnd (l + 1) * p - (l + 1) * t = (rnd (l + 1) - (l + 1)) * p + (l + 1) * (p - t)"
    by (simp add: algebra_simps)
  then have "\<bar>rnd (l + 1) * p - (l + 1) * t\<bar> \<le>
      \<bar>rnd (l + 1) - (l + 1)\<bar> * \<bar>p\<bar> + \<bar>l + 1\<bar> * \<bar>p - t\<bar>"
    by (simp only: abs_mult [symmetric] abs_triangle_ineq)
  also have "\<dots> \<le> eta * 2 + (l + 1) * (52 * u)"
    using L(1) p2 p l2 eta(1) by (intro add_mono mult_mono) (simp_all add: eta_def)
  also have "\<dots> = 54 * eta" by (simp add: eta_def)
  finally have a: "\<bar>rnd (l + 1) * p - (l + 1) * t\<bar> \<le> 54 * eta" .
  have m: "\<bar>(l + 1) * t\<bar> \<le> l + 1"
  proof -
    have "(l + 1) * t \<le> (l + 1) * 1" using t1 l2 by (intro mult_left_mono) simp_all
    moreover have "0 \<le> (l + 1) * t" using t0 l2 by simp
    ultimately show ?thesis by simp
  qed
  have e: "54 * eta \<le> l + 1" using eta l2 by linarith
  have "\<bar>rnd (rnd (l + 1) * p) - (l + 1) * t\<bar> \<le> 54 * eta + 2 * u * (l + 1)"
    by (rule abs_rnd [OF acc a m e])
  moreover have "2 * u * (l + 1) = 2 * eta" by (simp add: eta_def)
  ultimately show ?thesis unfolding eta_def by linarith
qed

lemma interpolate_up_close:
  assumes acc: "accurate u rnd" and l2: "2 \<le> l" and sm: "1000 * (u * (l + 1)) \<le> 1"
    and t0: "0 \<le> t" and t1: "t \<le> 1" and p: "\<bar>p - t\<bar> \<le> 50 * u"
  shows "\<bar>interpolateF rnd 1 (rnd (l + 1)) p - (1 + l * t)\<bar> \<le> 80 * (u * (l + 1))"
proof -
  note f = small_facts [OF acc l2 sm]
  define eta where "eta = u * (l + 1)"
  have eta: "0 \<le> eta" "eta \<le> 1 / 1000" "3 * u \<le> eta"
    using f l2 by (simp_all add: eta_def)
  have a0: "\<bar>(1 - p) - (1 - t)\<bar> \<le> 50 * u" using p by simp
  have "\<bar>rnd (1 - p) - (1 - t)\<bar> \<le> 50 * u + 2 * u * 1"
    by (rule abs_rnd [OF acc a0]) (use t0 t1 f(2) in simp_all)
  then have a1: "\<bar>rnd (1 - p) - (1 - t)\<bar> \<le> 52 * u" by simp
  have "\<bar>rnd (rnd (1 - p)) - (1 - t)\<bar> \<le> 52 * u + 2 * u * 1"
    by (rule abs_rnd [OF acc a1]) (use t0 t1 f(2) in simp_all)
  then have a2: "\<bar>rnd (rnd (1 - p)) - (1 - t)\<bar> \<le> 54 * u" by simp
  have p': "\<bar>p - t\<bar> \<le> 52 * u" using p f(1) by linarith
  have b: "\<bar>rnd (rnd (l + 1) * p) - (l + 1) * t\<bar> \<le> 56 * eta"
    unfolding eta_def by (rule scaled_close [OF acc l2 sm t0 t1 p'])
  have "(1 - t) + (l + 1) * t = 1 + l * t" by (simp add: algebra_simps)
  with a2 b eta have c: "\<bar>(rnd (rnd (1 - p)) + rnd (rnd (l + 1) * p)) - (1 + l * t)\<bar> \<le> 74 * eta"
    by linarith
  have m: "\<bar>1 + l * t\<bar> \<le> l + 1"
  proof -
    have "l * t \<le> l * 1" using t1 l2 by (intro mult_left_mono) simp_all
    moreover have "0 \<le> l * t" using t0 l2 by simp
    ultimately show ?thesis by simp
  qed
  have e: "74 * eta \<le> l + 1" using eta l2 by linarith
  have "\<bar>rnd (rnd (rnd (1 - p)) + rnd (rnd (l + 1) * p)) - (1 + l * t)\<bar> \<le>
      74 * eta + 2 * u * (l + 1)"
    by (rule abs_rnd [OF acc c m e])
  moreover have "2 * u * (l + 1) = 2 * eta" by (simp add: eta_def)
  ultimately have "\<bar>rnd (rnd (rnd (1 - p)) + rnd (rnd (l + 1) * p)) - (1 + l * t)\<bar> \<le> 80 * eta"
    using eta(1) by linarith
  then show ?thesis by (simp add: interpolateF_def eta_def)
qed

lemma interpolate_down_close:
  assumes acc: "accurate u rnd" and l2: "2 \<le> l" and sm: "1000 * (u * (l + 1)) \<le> 1"
    and t0: "0 \<le> t" and t1: "t \<le> 1" and p: "\<bar>p - (1 - t)\<bar> \<le> 50 * u"
  shows "\<bar>interpolateF rnd (rnd (l + 1)) 1 p - (1 + l * t)\<bar> \<le> 80 * (u * (l + 1))"
proof -
  note f = small_facts [OF acc l2 sm]
  define eta where "eta = u * (l + 1)"
  have eta: "0 \<le> eta" "eta \<le> 1 / 1000" "3 * u \<le> eta"
    using f l2 by (simp_all add: eta_def)
  have a0: "\<bar>(1 - p) - t\<bar> \<le> 50 * u" using p by linarith
  have "\<bar>rnd (1 - p) - t\<bar> \<le> 50 * u + 2 * u * 1"
    by (rule abs_rnd [OF acc a0]) (use t0 t1 f(2) in simp_all)
  then have a1: "\<bar>rnd (1 - p) - t\<bar> \<le> 52 * u" by simp
  have a: "\<bar>rnd (rnd (l + 1) * rnd (1 - p)) - (l + 1) * t\<bar> \<le> 56 * eta"
    unfolding eta_def by (rule scaled_close [OF acc l2 sm t0 t1 a1])
  have "\<bar>rnd p - (1 - t)\<bar> \<le> 50 * u + 2 * u * 1"
    by (rule abs_rnd [OF acc p]) (use t0 t1 f(2) in simp_all)
  then have b: "\<bar>rnd p - (1 - t)\<bar> \<le> 52 * u" by simp
  have "(l + 1) * t + (1 - t) = 1 + l * t" by (simp add: algebra_simps)
  with a b eta have c: "\<bar>(rnd (rnd (l + 1) * rnd (1 - p)) + rnd p) - (1 + l * t)\<bar> \<le> 74 * eta"
    by linarith
  have m: "\<bar>1 + l * t\<bar> \<le> l + 1"
  proof -
    have "l * t \<le> l * 1" using t1 l2 by (intro mult_left_mono) simp_all
    moreover have "0 \<le> l * t" using t0 l2 by simp
    ultimately show ?thesis by simp
  qed
  have e: "74 * eta \<le> l + 1" using eta l2 by linarith
  have "\<bar>rnd (rnd (rnd (l + 1) * rnd (1 - p)) + rnd p) - (1 + l * t)\<bar> \<le>
      74 * eta + 2 * u * (l + 1)"
    by (rule abs_rnd [OF acc c m e])
  moreover have "2 * u * (l + 1) = 2 * eta" by (simp add: eta_def)
  ultimately have "\<bar>rnd (rnd (rnd (l + 1) * rnd (1 - p)) + rnd p) - (1 + l * t)\<bar> \<le> 80 * eta"
    using eta(1) by linarith
  then show ?thesis by (simp add: interpolateF_def eta_def)
qed

lemma invert_close:
  assumes acc: "accurate u rnd" and l2: "2 \<le> l" and sm: "1000 * (u * (l + 1)) \<le> 1"
    and w: "w \<noteq> 0" and t0: "0 \<le> t" and t1: "t \<le> 1"
    and y: "\<bar>y - w * t\<bar> \<le> 40 * u * \<bar>w\<bar>"
  shows "\<bar>bimapF rnd 0 w 1 (rnd (l + 1)) y - (1 + l * t)\<bar> \<le> 80 * (u * (l + 1))"
proof (cases "w < 0")
  case True
  note f = small_facts [OF acc l2 sm]
  have "\<bar>normalizeF rnd w 0 y - (1 - t)\<bar> \<le> 50 * u"
    by (rule normalize_down_close [OF acc f(2) True t0 t1 y])
  then have "\<bar>interpolateF rnd (rnd (l + 1)) 1 (normalizeF rnd w 0 y) - (1 + l * t)\<bar> \<le>
      80 * (u * (l + 1))"
    by (rule interpolate_down_close [OF acc l2 sm t0 t1])
  with True show ?thesis by (simp add: bimapF_def)
next
  case False
  with w have wp: "0 < w" by simp
  note f = small_facts [OF acc l2 sm]
  have "\<bar>normalizeF rnd 0 w y - t\<bar> \<le> 50 * u"
    by (rule normalize_up_close [OF acc f(2) wp t0 t1 y])
  then have "\<bar>interpolateF rnd 1 (rnd (l + 1)) (normalizeF rnd 0 w y) - (1 + l * t)\<bar> \<le>
      80 * (u * (l + 1))"
    by (rule interpolate_up_close [OF acc l2 sm t0 t1])
  with False show ?thesis by (simp add: bimapF_def)
qed


lemma round_trip_close:
  assumes acc: "accurate u rnd" and sm: "1000 * (u * (l + 1)) \<le> 1"
    and s1: "1 \<le> s" and se: "s + 1 \<le> e" and el: "e \<le> l" and w: "w \<noteq> 0"
    and a2: "a2 = rnd (rnd (1 + e) - s)"
    and k: "k = max 1 (rnd (l / a2))"
    and k': "k' = (if k = 1 then 1 else rnd (1 * k))"
    and rh: "rh = bimapF rnd 1 (rnd (l + 1)) 0 w s"
    and xh: "xh = rnd (0 + rnd (k' * - rh))"
    and sa: "sa = bimapF rnd 0 w 1 (rnd (l + 1)) (rnd (rnd (0 - xh) / k'))"
    and en: "en = bimapF rnd 0 w 1 (rnd (l + 1)) (rnd (rnd (w - xh) / k'))"
  shows "\<bar>max 1 sa - s\<bar> \<le> 100 * (u * (l + 1))"
    and "\<bar>min l (max (rnd (en - 1)) (rnd (sa + 1))) - e\<bar> \<le> 100 * (u * (l + 1))"
proof -
  from s1 se el have l2: "2 \<le> l" by simp
  note f = small_facts [OF acc l2 sm]
  note fc = factor_close [OF acc sm s1 se el a2 k k']
  define eta where "eta = u * (l + 1)"
  have eta: "0 \<le> eta" "eta \<le> 1 / 1000" using f l2 by (simp_all add: eta_def)
  define t where "t = (s - 1) / l"
  define v where "v = (1 + e - s) / l"
  have t0: "0 \<le> t" using s1 l2 by (simp add: t_def)
  have v0: "0 \<le> v" using se l2 by (simp add: v_def)
  have vt: "v + t = e / l" by (simp add: v_def t_def add_divide_distrib [symmetric])
  have vt1: "v + t \<le> 1" using el l2 by (simp add: vt)
  have t1: "t \<le> 1" using v0 vt1 by simp
  have vt0: "0 \<le> v + t" using v0 t0 by simp
  have lt: "1 + l * t = s" using l2 by (simp add: t_def)
  have lvt: "1 + l * (v + t) = 1 + e" using l2 by (simp add: vt)
  have r: "near (12 * u) rh (w * t)"
    unfolding rh t_def by (rule apply_close [OF acc l2 sm])
  have k0: "k' \<noteq> 0" using fc(2) by simp
  have kc: "\<bar>1 / k' - v\<bar> \<le> 10 * u" using fc(3) by (simp add: v_def)
  have "\<bar>rnd (rnd (0 - xh) / k') - w * t\<bar> \<le> 40 * u * \<bar>w\<bar>"
    unfolding xh by (rule start_point_abs [OF acc f(2) k0 r t0 t1])
  then have "\<bar>sa - (1 + l * t)\<bar> \<le> 80 * (u * (l + 1))"
    unfolding sa by (rule invert_close [OF acc l2 sm w t0 t1])
  then have a: "\<bar>sa - s\<bar> \<le> 80 * eta" by (simp add: lt eta_def)
  have "\<bar>rnd (rnd (w - xh) / k') - w * (v + t)\<bar> \<le> 40 * u * \<bar>w\<bar>"
    unfolding xh by (rule end_point_abs [OF acc f(2) fc(2) kc r t0 v0 vt1])
  then have "\<bar>en - (1 + l * (v + t))\<bar> \<le> 80 * (u * (l + 1))"
    unfolding en by (rule invert_close [OF acc l2 sm w vt0 vt1])
  then have b: "\<bar>en - (1 + e)\<bar> \<le> 80 * eta" by (simp add: lvt eta_def)
  from a s1 eta(1) have "\<bar>max 1 sa - s\<bar> \<le> 100 * eta" by (simp add: max_def) linarith
  then show "\<bar>max 1 sa - s\<bar> \<le> 100 * (u * (l + 1))" by (simp add: eta_def)
  have two: "2 * u * (l + 1) = 2 * eta" by (simp add: eta_def)
  have b': "\<bar>(en - 1) - e\<bar> \<le> 80 * eta" using b by simp
  have me: "\<bar>e\<bar> \<le> l + 1" using s1 se el by simp
  have ee: "80 * eta \<le> l + 1" using eta l2 by linarith
  have "\<bar>rnd (en - 1) - e\<bar> \<le> 80 * eta + 2 * u * (l + 1)"
    by (rule abs_rnd [OF acc b' me ee])
  with two have c: "\<bar>rnd (en - 1) - e\<bar> \<le> 82 * eta" by linarith
  have a': "\<bar>(sa + 1) - (s + 1)\<bar> \<le> 80 * eta" using a by simp
  have ms: "\<bar>s + 1\<bar> \<le> l + 1" using s1 se el by simp
  have "\<bar>rnd (sa + 1) - (s + 1)\<bar> \<le> 80 * eta + 2 * u * (l + 1)"
    by (rule abs_rnd [OF acc a' ms ee])
  with two have d: "\<bar>rnd (sa + 1) - (s + 1)\<bar> \<le> 82 * eta" by linarith
  from c d se el eta(1) have "\<bar>min l (max (rnd (en - 1)) (rnd (sa + 1))) - e\<bar> \<le> 100 * eta"
    by (simp add: max_def min_def) linarith
  then show "\<bar>min l (max (rnd (en - 1)) (rnd (sa + 1))) - e\<bar> \<le> 100 * (u * (l + 1))"
    by (simp add: eta_def)
qed

section \<open>Applying a visible range and reading it back\<close>

lemma zoomTransformR_Fin:
  assumes "rnd 0 = 0" and "zoomFactorR rnd st = Fin kv" and "zoomDxR rnd origin st = Fin d"
  shows "zoomTransformR rnd origin st =
     \<lparr>tk = Fin (if kv = 1 then 1 else rnd (1 * kv)),
      tx = Fin (rnd (0 + rnd ((if kv = 1 then 1 else rnd (1 * kv)) * d))), ty = Fin 0\<rparr>"
  using assms by (simp add: zoomTransformR_def tscaleR_def ttranslateR_def zoomIdentity_def)

lemma round_trip:
  assumes acc: "accurate u rnd" and sm: "1000 * (u * (l + 1)) \<le> 1"
    and len: "length' (props st) = Some (Fin l)"
    and ds: "display_start (props st) = Some (Fin s)"
    and de: "display_end (props st) = Some (Fin e)"
    and s1: "1 \<le> s" and se: "s + 1 \<le> e" and el: "e \<le> l"
    and origin: "originXScale st =
      Some \<lparr>dom0 = Fin 1, dom1 = Fin (rnd (l + 1)), rng0 = Fin 0, rng1 = Fin w\<rparr>"
    and w: "w \<noteq> 0"
    and svg: "svg st = Some ns" and ns: "ns \<noteq> []" and zoom: "zoom st = Some z"
  shows "\<exists>s' e'. visibleRangeR rnd (applyZoomTranslation_boundR rnd st) = Some (Fin s', Fin e')
     \<and> \<bar>s' - s\<bar> \<le> 100 * (u * (l + 1)) \<and> \<bar>e' - e\<bar> \<le> 100 * (u * (l + 1))"
proof -
  let ?origin = "\<lparr>dom0 = Fin 1, dom1 = Fin (rnd (l + 1)), rng0 = Fin 0, rng1 = Fin w\<rparr>"
  define a2 where "a2 = rnd (rnd (1 + e) - s)"
  define k where "k = max 1 (rnd (l / a2))"
  define k' where "k' = (if k = 1 then 1 else rnd (1 * k))"
  define rh where "rh = bimapF rnd 1 (rnd (l + 1)) 0 w s"
  define xh where "xh = rnd (0 + rnd (k' * - rh))"
  define sa where "sa = bimapF rnd 0 w 1 (rnd (l + 1)) (rnd (rnd (0 - xh) / k'))"
  define en where "en = bimapF rnd 0 w 1 (rnd (l + 1)) (rnd (rnd (w - xh) / k'))"
  note fc = factor_close [OF acc sm s1 se el a2_def k_def k'_def]
  note rt = round_trip_close [OF acc sm s1 se el w a2_def k_def k'_def rh_def xh_def sa_def en_def]
  from s1 se el have nz: "l \<noteq> 0" "s \<noteq> 0" "e \<noteq> 0" by simp_all
  have r0: "rnd 0 = 0" by (rule accurate_zero [OF acc])
  have kf: "zoomFactorR rnd st = Fin k"
    using nz fc(1) by (simp add: zoomFactorR_def len ds de jdivR_Fin a2_def k_def)
  have dx: "zoomDxR rnd ?origin st = Fin (- rh)"
    using nz by (simp add: zoomDxR_def ds scaleApplyR_def bimapR_Fin rh_def)
  have t: "zoomTransformR rnd ?origin st = \<lparr>tk = Fin k', tx = Fin xh, ty = Fin 0\<rparr>"
    by (simp only: zoomTransformR_Fin [OF r0 kf dx] k'_def xh_def)
  have k0: "k' \<noteq> 0" using fc(2) by simp
  have "xScale (applyZoomTranslation_boundR rnd st) =
      Some (rescaleXR rnd (zoomTransformR rnd ?origin st) ?origin)"
    by (rule applyZoomTranslation_boundR_xScale [OF svg origin zoom ns])
  then have x: "xScale (applyZoomTranslation_boundR rnd st) =
      Some \<lparr>dom0 = Fin sa, dom1 = Fin en, rng0 = Fin 0, rng1 = Fin w\<rparr>"
    by (simp only: t rescaleXR_Fin [OF k0] sa_def en_def)
  have "visibleRangeR rnd (applyZoomTranslation_boundR rnd st) =
      Some (Fin (max 1 sa), Fin (min l (max (rnd (en - 1)) (rnd (sa + 1)))))"
    using nz
    by (simp add: visibleRangeR_def x displayStart_def displayEndR_def
        applyZoomTranslation_boundR_props len)
  with rt show ?thesis by blast
qed

text \<open>
  Claim C1 (round trip of a programmatic range), with the tolerance made explicit. Let
  every arithmetic result be rounded by a function \<open>rnd\<close> that is accurate to \<open>u\<close>, and
  let the sequence length \<open>l\<close> satisfy \<open>1000 * u * (l + 1) \<le> 1\<close>. Take a component whose
  origin scale is the one built from \<open>l\<close> (its domain ends at the rounded sum
  \<open>l + 1\<close>) and a drawable width \<open>w \<noteq> 0\<close>, with a zoom behaviour and a rendering
  surface of at least one element, and whose properties hold a range with \<open>1 \<le> s\<close>,
  \<open>s + 1 \<le> e\<close> and \<open>e \<le> l\<close> (every pair of whole positions \<open>s < e\<close> is of this
  kind). After the bound \<^verbatim>\<open>applyZoomTranslation\<close> the visible range read back from the
  scale is a pair of finite numbers \<open>{s', e'}\<close>, with \<open>s'\<close> within
  \<open>100 * u * (l + 1)\<close> of \<open>s\<close> and \<open>e'\<close> within \<open>100 * u * (l + 1)\<close> of \<open>e\<close>. For
  doubles \<open>u\<close> is \<^verbatim>\<open>2^-53\<close>, and the bound on the length is \<open>l + 1 \<le> 2 ^ 53 / 1000\<close>;
  with \<open>u = 0\<close>, that is in exact arithmetic, the pair is \<open>{s, e}\<close> itself.
\<close>
theorem visible_range_round_trip:
  assumes "accurate u rnd" and "1000 * (u * (l + 1)) \<le> 1"
    and "length' (props st) = Some (Fin l)"
    and "display_start (props st) = Some (Fin s)" and "display_end (props st) = Some (Fin e)"
    and "1 \<le> s" and "s + 1 \<le> e" and "e \<le> l"
    and "originXScale st =
      Some \<lparr>dom0 = Fin 1, dom1 = Fin (rnd (l + 1)), rng0 = Fin 0, rng1 = Fin w\<rparr>"
    and "w \<noteq> 0"
    and "svg st = Some ns" and "ns \<noteq> []" and "zoom st = Some z"
  shows "\<exists>s' e'. visibleRangeR rnd (applyZoomTranslation_boundR rnd st) = Some (Fin s', Fin e')
     \<and> \<bar>s' - s\<bar> \<le> 100 * (u * (l + 1)) \<and> \<bar>e' - e\<bar> \<le> 100 * (u * (l + 1))"
  using assms by (rule round_trip)

text \<open>The round trip for length 1000, width 500 and the range \<open>{250, 260}\<close>, with every
  result rounded away from zero by one part in \<open>2 ^ 53\<close>: the range read back is within
  \<open>100100 / 2 ^ 53\<close> of \<open>{250, 260}\<close>.\<close>
theorem visible_range_round_trip_witness:
  "\<exists>s' e'.
     visibleRangeR (\<lambda>x. x * (1 + 1 / 2 ^ 53))
       (applyZoomTranslation_boundR (\<lambda>x. x * (1 + 1 / 2 ^ 53))
          ((exampleEngine 1000 500 (Some (Fin 250)) (Some (Fin 260)))
             \<lparr>originXScale := Some \<lparr>dom0 = Fin 1, dom1 = Fin (1001 * (1 + 1 / 2 ^ 53)),
                                    rng0 = Fin 0, rng1 = Fin 500\<rparr>\<rparr>)) =
       Some (Fin s', Fin e')
     \<and> \<bar>s' - 250\<bar> \<le> 100100 / 2 ^ 53 \<and> \<bar>e' - 260\<bar> \<le> 100100 / 2 ^ 53"
proof -
  have a: "accurate (1 / 2 ^ 53) (\<lambda>x. x * (1 + 1 / 2 ^ 53))"
    by (simp add: accurate_def algebra_simps abs_mult)
  show ?thesis
    using visible_range_round_trip
      [of "1 / 2 ^ 53" "\<lambda>x. x * (1 + 1 / 2 ^ 53)" 1000
        "(exampleEngine 1000 500 (Some (Fin 250)) (Some (Fin 260)))
           \<lparr>originXScale := Some \<lparr>dom0 = Fin 1, dom1 = Fin (1001 * (1 + 1 / 2 ^ 53)),
                                  rng0 = Fin 0, rng1 = Fin 500\<rparr>\<rparr>"
        250 260 500 "[\<lparr>zoomProp = Some zoomIdentity, listening = True\<rparr>]"
        "\<lparr>scaleExtent = (Fin 1, PInf), translateExtent = ((Fin 0, Fin 0), (Fin 500, Fin 0)),
          extent = ((Fin 0, Fin 0), (Fin 500, Fin 0))\<rparr>", OF a]
    by (simp add: exampleEngine_value exampleProps_def)
qed

text \<open>
  Claim C1 as it is stated, for every \<open>1 \<le> s < e \<le> l\<close>, fails on a range shorter than
  one position, and not by rounding: in exact arithmetic, for length 10 and width 500,
  the range \<open>{1, 1.5}\<close> is read back as \<open>{1, 2}\<close>, since \<^verbatim>\<open>zoomed\<close> never reports an
  end below \<open>start + 1\<close>. It also fails when the drawable width is zero: the origin scale
  cannot be inverted, and the range \<open>{2, 5}\<close> of length 10 is read back as \<open>{6, 7}\<close>.
\<close>
theorem visible_range_round_trip_counterexample:
  "visibleRange (animationFrame (exampleEngine 10 500 (Some (Fin 1)) (Some (Fin (3 / 2))))) =
     Some (Fin 1, Fin 2)
   \<and> visibleRange (animationFrame (exampleEngine 10 0 (Some (Fin 2)) (Some (Fin 5)))) =
     Some (Fin 6, Fin 7)"
  by (simp add: exampleEngine_value)
    (simp add: visibleRange_def mixin_defs d3_defs number_defs Let_def)

section \<open>No change event from a programmatic application\<close>

lemma bound_dispatched: "dispatched (applyZoomTranslation_bound st) = dispatched st"
  by (simp add: dispatched_def applyZoomTranslation_bound_trace)

lemma frameCallback_dispatched: "dispatched (frameCallback st) = dispatched st"
  by (simp add: frameCallback_def bound_dispatched) (simp add: dispatched_def)

lemma frameCallback_pow_dispatched: "dispatched ((frameCallback ^^ n) st) = dispatched st"
  by (induction n arbitrary: st) (simp_all add: frameCallback_dispatched)

text \<open>
  Claim C2 (no feedback). A programmatic application of the visible range never adds a
  \<^verbatim>\<open>change\<close> event to those dispatched: not the bound \<^verbatim>\<open>applyZoomTranslation\<close>, which
  sets \<^verbatim>\<open>dontDispatch\<close> before it calls \<^verbatim>\<open>zoom.transform\<close> and clears it afterwards,
  while \<^verbatim>\<open>zoomed\<close> returns before dispatching as long as it is set; not the
  debounced property, which only schedules a frame; and not the animation frame that runs
  the scheduled callbacks. This holds in every state and for all values of the properties.
  The last two parts are the reason: with the latch set, neither \<^verbatim>\<open>zoomed\<close> nor the
  whole of \<^verbatim>\<open>zoom.transform\<close> on the surface dispatches anything.
\<close>
theorem no_feedback:
  "dispatched (applyZoomTranslation_bound st) = dispatched st
   \<and> dispatched (applyZoomTranslation st) = dispatched st
   \<and> dispatched (animationFrame st) = dispatched st
   \<and> dispatched (zoomed t (st\<lparr>dontDispatch := True\<rparr>)) = dispatched st
   \<and> dispatched (callZoomTransform t (st\<lparr>dontDispatch := True\<rparr>)) = dispatched st"
proof -
  have "dispatched (applyZoomTranslation st) = dispatched st"
    by (simp add: applyZoomTranslation_def dispatched_def)
  moreover have "dispatched (animationFrame st) = dispatched st"
    by (simp add: animationFrame_def frameCallback_pow_dispatched) (simp add: dispatched_def)
  moreover have "dispatched (zoomed t (st\<lparr>dontDispatch := True\<rparr>)) = dispatched st"
    using zoomed_latched [of "st\<lparr>dontDispatch := True\<rparr>" t] by (simp add: dispatched_def)
  moreover have "dispatched (callZoomTransform t (st\<lparr>dontDispatch := True\<rparr>)) = dispatched st"
    using callZoomTransform_latched [of "st\<lparr>dontDispatch := True\<rparr>" t]
    by (simp add: dispatched_def)
  ultimately show ?thesis by (simp add: bound_dispatched)
qed

section \<open>The transform of a programmatic application\<close>

text \<open>
  Claim C3 (the transform of a programmatic application). In every state, the bound
  \<^verbatim>\<open>applyZoomTranslation\<close> leaves the rendering surface as follows: where an origin
  scale and a zoom behaviour are present, the zoom transform of every element of the
  surface is the identity, scaled by \<open>k = max(1, length / (1 + end - start))\<close> and then
  translated by \<open>dx = - origin(start)\<close>, where length, start and end are the properties
  with \<^verbatim>\<open>|| 0\<close> applied; where one of them is missing there is nothing to apply the
  range to, and the surface stays as it is. For finite \<open>k\<close> and \<open>dx\<close> the transform has
  the factor \<open>k\<close> and the offset \<open>k * dx\<close> (lemma \<open>zoomTransform_Fin\<close>).
\<close>
theorem programmatic_transform:
  "svg (applyZoomTranslation_bound st) =
     (case (originXScale st, zoom st) of
        (Some origin, Some z) \<Rightarrow>
          map_option (map (\<lambda>n. n\<lparr>zoomProp := Some
            (ttranslate
               (tscale zoomIdentity
                  (jmax (Fin 1)
                     (jdiv (orZero (length' (props st)))
                        (jsub (jadd (Fin 1) (orZero (display_end (props st))))
                           (orZero (display_start (props st)))))))
               (jneg (scaleApply origin (orZero (display_start (props st)))))
               (Fin 0))\<rparr>)) (svg st)
      | _ \<Rightarrow> svg st)"
  using applyZoomTranslation_bound_svg_cases [of st]
  by (simp add: zoomTransform_def zoomFactor_def zoomDx_def split: option.splits)

text \<open>For length 1000, width 500 and the range \<open>{250, 260}\<close>: \<open>k = 1000 / 11\<close> and the
  offset is \<open>k * dx\<close> with \<open>dx = - 249 / 2\<close>.\<close>
theorem programmatic_transform_witness:
  "svg (animationFrame (exampleEngine 1000 500 (Some (Fin 250)) (Some (Fin 260)))) =
     Some [\<lparr>zoomProp = Some \<lparr>tk = Fin (1000 / 11), tx = Fin (- (124500 / 11)), ty = Fin 0\<rparr>,
            listening = True\<rparr>]"
  using programmatic_transform
    [of "(exampleEngine 1000 500 (Some (Fin 250)) (Some (Fin 260)))\<lparr>aboutToApply := False, rafQueue := 0\<rparr>"]
  by (simp add: animationFrame_example)
    (simp add: exampleEngine_value exampleProps_def scaleApply_Fin tscale_def ttranslate_def
      zoomIdentity_def)

section \<open>The change events\<close>

lemma zoomFactorR_clamped: "isNaN (zoomFactorR rnd st) \<or> jle (Fin 1) (zoomFactorR rnd st)"
proof -
  have "isNaN (jmax (Fin 1) q) \<or> jle (Fin 1) (jmax (Fin 1) q)" for q
    by (cases q) (simp_all add: jmax_def)
  then show ?thesis by (simp add: zoomFactorR_def)
qed

lemma gestureTransformR_tk:
  "tk (gestureTransformR rnd z t kv p0 p1) =
     jmax (fst (scaleExtent z)) (jmin (snd (scaleExtent z)) kv)"
  by (simp add: gestureTransformR_def constrainR_def gtranslateR_def ttranslateR_def gscale_def
      Let_def)

lemma gesture_factor_clamped:
  assumes "scaleExtent z = (Fin 1, PInf)" and "\<not> isNaN kv"
  shows "jle (Fin 1) (tk (gestureTransformR rnd z t kv p0 p1))"
  using assms by (cases kv) (simp_all add: gestureTransformR_tk jmax_def jmin_def)

lemma initZoom_scaleExtent:
  "zoom (initZoom st) = Some z \<Longrightarrow> scaleExtent z = (Fin 1, PInf)"
  by (auto simp add: initZoom_def)

lemma zoomedR_dispatches:
  assumes "\<not> dontDispatch st" and "xScale (zoomedR rnd t st) = Some sc"
  shows "trace (zoomedR rnd t st) =
     trace st @ [Dispatched (displayStart (dom0 sc)) (displayEndR rnd st (dom0 sc) (dom1 sc))]"
proof (cases "originXScale st")
  case None
  with assms show ?thesis
    by (simp add: zoomedR_def emit_def displayEndR_def Let_def split: option.splits)
next
  case (Some origin)
  with assms show ?thesis
    by (auto simp add: zoomedR_def emit_def displayEndR_def Let_def)
qed

lemma displayStart_ge: "\<not> isNaN a \<Longrightarrow> jle (Fin 1) (displayStart a)"
  by (cases a) (simp_all add: displayStart_def jmax_def)

lemma jround_not_NaN: "\<not> isNaN v \<Longrightarrow> \<not> isNaN (jround rnd v)"
  by (cases v) (simp_all add: jround_def)

lemma jaddR_one_not_NaN: "\<not> isNaN a \<Longrightarrow> \<not> isNaN (jaddR rnd a (Fin 1))"
  by (cases a) (simp_all add: jaddR_def jround_def)

lemma jsubR_one_not_NaN: "\<not> isNaN b \<Longrightarrow> \<not> isNaN (jsubR rnd b (Fin 1))"
  by (cases b) (simp_all add: jsubR_def jsub_def jround_def)

lemma jmax_bounds:
  assumes "\<not> isNaN p" and "\<not> isNaN q"
  shows "\<not> isNaN (jmax p q)" and "jle q (jmax p q)"
  using assms by (cases p; cases q; simp add: jmax_def)+

lemma jmin_bounds:
  assumes "\<not> isNaN L" and "\<not> isNaN m"
  shows "\<not> isNaN (jmin L m)" and "jle (jmin L m) L"
  using assms by (cases L; cases m; simp add: jmin_def)+

lemma jmin_mono:
  assumes "\<not> isNaN L" and "\<not> isNaN q" and "\<not> isNaN m" and "jle q m"
  shows "jle (jmin L q) (jmin L m)"
  using assms by (cases L; cases q; cases m; simp add: jmin_def)

lemma displayEndR_bounds:
  assumes "\<not> isNaN a" and "\<not> isNaN b"
  shows "jle (displayEndR rnd st a b) (orZero (length' (props st)))"
    and "jle (jmin (orZero (length' (props st))) (jaddR rnd a (Fin 1))) (displayEndR rnd st a b)"
proof -
  note p = jaddR_one_not_NaN [OF assms(1), where rnd = rnd]
  note q = jsubR_one_not_NaN [OF assms(2), where rnd = rnd]
  note m = jmax_bounds [OF q p]
  show "jle (displayEndR rnd st a b) (orZero (length' (props st)))"
    unfolding displayEndR_def by (rule jmin_bounds(2) [OF orZero_not_NaN m(1)])
  show "jle (jmin (orZero (length' (props st))) (jaddR rnd a (Fin 1))) (displayEndR rnd st a b)"
    unfolding displayEndR_def by (rule jmin_mono [OF orZero_not_NaN p m(1) m(2)])
qed

lemma display_span:
  assumes "1 \<le> a" and "jle (Fin (rnd (a + 1))) (orZero (length' (props st)))"
    and "\<not> isNaN b"
  shows "jle (Fin (rnd (a + 1) - a))
     (jsub (displayEndR rnd st (Fin a) b) (displayStart (Fin a)))"
proof -
  have "jle (Fin c) L \<Longrightarrow> \<not> isNaN m \<Longrightarrow> jle (Fin c) m \<Longrightarrow>
      jle (Fin (c - a)) (jsub (jmin L m) (Fin a))" for c L m
    by (cases L; cases m; simp add: jmin_def jsub_def)
  moreover note jmax_bounds [OF jsubR_one_not_NaN [OF assms(3), where rnd = rnd],
      where q = "Fin (rnd (a + 1))"]
  ultimately show ?thesis
    using assms(1,2) by (simp add: displayEndR_def displayStart_def max_absorb2)
qed

text \<open>
  Claim C4 (what holds of every \<^verbatim>\<open>change\<close> event), as the code has it, for every
  rounding function. When \<^verbatim>\<open>zoomed\<close> runs with the latch clear and leaves a scale whose
  domain \<open>[a, b]\<close> holds no NaN, it dispatches one event, whose \<^verbatim>\<open>display-start\<close> is
  \<open>max(1, a)\<close>, at least 1, and whose \<^verbatim>\<open>display-end\<close> is at most the length and at
  least the smaller of the length and the rounded sum \<open>a + 1\<close>. So the end is at least the
  rounded sum \<open>a + 1\<close> minus \<open>a\<close> after the start (which is 1 up to the rounding of that
  sum) provided that \<open>1 \<le> a\<close> and the rounded sum is at most the length; nothing more is
  said of the span. The factor of a programmatic application is at least 1 unless it is
  NaN (the quotient \<open>0 / 0\<close>). The factor that a gesture leaves is the requested factor
  held to the scale extent of \<^verbatim>\<open>_initZoom\<close>, at least 1 unless the requested factor is
  NaN.
\<close>
theorem change_event_invariants:
  assumes "\<not> dontDispatch st" and "xScale (zoomedR rnd t st) = Some sc"
    and "\<not> isNaN (dom0 sc)" and "\<not> isNaN (dom1 sc)"
  shows "trace (zoomedR rnd t st) =
       trace st @ [Dispatched (displayStart (dom0 sc)) (displayEndR rnd st (dom0 sc) (dom1 sc))]
     \<and> jle (Fin 1) (displayStart (dom0 sc))
     \<and> jle (displayEndR rnd st (dom0 sc) (dom1 sc)) (orZero (length' (props st)))
     \<and> jle (jmin (orZero (length' (props st))) (jaddR rnd (dom0 sc) (Fin 1)))
          (displayEndR rnd st (dom0 sc) (dom1 sc))
     \<and> (dom0 sc = Fin a \<and> 1 \<le> a \<and> jle (Fin (rnd (a + 1))) (orZero (length' (props st))) \<longrightarrow>
          jle (Fin (rnd (a + 1) - a))
            (jsub (displayEndR rnd st (dom0 sc) (dom1 sc)) (displayStart (dom0 sc))))
     \<and> (isNaN (zoomFactorR rnd st) \<or> jle (Fin 1) (zoomFactorR rnd st))
     \<and> (zoom (initZoom st0) = Some z \<and> \<not> isNaN kv \<longrightarrow>
          jle (Fin 1) (tk (gestureTransformR rnd z t0 kv p0 p1)))"
proof -
  have "zoom (initZoom st0) = Some z \<and> \<not> isNaN kv \<longrightarrow>
      jle (Fin 1) (tk (gestureTransformR rnd z t0 kv p0 p1))"
    using gesture_factor_clamped [OF initZoom_scaleExtent] by blast
  moreover have "dom0 sc = Fin a \<and> 1 \<le> a
      \<and> jle (Fin (rnd (a + 1))) (orZero (length' (props st))) \<longrightarrow>
      jle (Fin (rnd (a + 1) - a))
        (jsub (displayEndR rnd st (dom0 sc) (dom1 sc)) (displayStart (dom0 sc)))"
    using display_span [where a = a and rnd = rnd and st = st and b = "dom1 sc"] assms(4)
    by auto
  ultimately show ?thesis
    using zoomedR_dispatches [OF assms(1,2)] displayStart_ge [OF assms(3)]
      displayEndR_bounds [OF assms(3,4), where rnd = rnd and st = st]
      zoomFactorR_clamped [where rnd = rnd and st = st]
    by blast
qed

text \<open>For length 10 and width 500, in exact arithmetic: the transform with factor 2 and
  offset \<open>- 100\<close> gives the domain \<open>[2, 7]\<close> and the event \<open>{2, 6}\<close>, with a span of
  at least \<open>3 - 2\<close>; a gesture that asks for the factor \<open>1 / 2\<close> is held at 1.\<close>
theorem change_event_invariants_witness:
  "trace (zoomedR (\<lambda>x. x) \<lparr>tk = Fin 2, tx = Fin (- 100), ty = Fin 0\<rparr>
            (animationFrame (exampleEngine 10 500 (Some (Fin 1)) (Some (Fin 10))))) =
     [ScaleRebuilt, OriginCopied, ApplyCalled, Refreshed, Dispatched (Fin 2) (Fin 6)]
   \<and> jle (Fin (3 - 2)) (jsub (Fin 6) (Fin 2))
   \<and> jle (Fin 1) (tk (gestureTransformR (\<lambda>x. x)
        \<lparr>scaleExtent = (Fin 1, PInf), translateExtent = ((Fin 0, Fin 0), (Fin 500, Fin 0)),
          extent = ((Fin 0, Fin 0), (Fin 500, Fin 0))\<rparr>
        zoomIdentity (Fin (1 / 2)) (Fin 250, Fin 0) (Fin 250, Fin 0)))"
  using change_event_invariants
    [of "animationFrame (exampleEngine 10 500 (Some (Fin 1)) (Some (Fin 10)))"
      "\<lambda>x. x" "\<lparr>tk = Fin 2, tx = Fin (- 100), ty = Fin 0\<rparr>"
      "\<lparr>dom0 = Fin 2, dom1 = Fin 7, rng0 = Fin 0, rng1 = Fin 500\<rparr>" 2
      "constructed (exampleProps 10 500 None None)"
      "\<lparr>scaleExtent = (Fin 1, PInf), translateExtent = ((Fin 0, Fin 0), (Fin 500, Fin 0)),
        extent = ((Fin 0, Fin 0), (Fin 500, Fin 0))\<rparr>"
      "Fin (1 / 2)" zoomIdentity "(Fin 250, Fin 0)" "(Fin 250, Fin 0)"]
  by (simp add: readyEngine_value identity_rounding_mixin zoomed_def rescaleX_Fin emit_def
      displayStart_def displayEnd_def exampleProps_def initZoom_def constructed_def
      getWidthWithMargins_def)

text \<open>
  Claim C4 as it is stated fails in each of its parts. The span: for a sequence of
  length 1 no pair can have a start of at least 1, an end of at most 1 and a span of 1;
  the clamp to the length wins, and a wheel gesture by the factor 2 at the left edge
  dispatches \<open>{1, 1}\<close>. For length 10, a wheel gesture by the
  factor 10 at the right edge leaves the domain \<open>[10, 11]\<close> and dispatches \<open>{10, 10}\<close>.
  Where the length does not interfere, the span can still fall below 1 by rounding: with
  the sum \<open>2 + 1 / 2 ^ 52\<close> rounded to 2, as rounding to the nearest double does, the
  \<^verbatim>\<open>zoom\<close> event with the factor 10 and the offset \<open>- 500 / 2 ^ 52\<close> gives the event
  \<open>{1 + 1 / 2 ^ 52, 2}\<close>. A domain that starts below 1 gives a span below 1 as well: the
  \<^verbatim>\<open>zoom\<close> event with the factor 10 and the offset 250 has the domain
  \<open>[1 / 2, 3 / 2]\<close> and the event \<open>{1, 3 / 2}\<close>. The factor and the bounds: with the length 0, the start 1 and no end,
  the factor of the programmatic application is \<open>0 / 0\<close>, NaN; it is stored in the
  element, the next wheel gesture asks for a NaN factor, and the event it dispatches is
  \<open>{NaN, NaN}\<close>.
\<close>
theorem change_event_invariants_counterexample:
  "trace (wheeledR (\<lambda>x. x) 0 (Fin 2) (Fin 0, Fin 0)
            (animationFrame (exampleEngine 1 500 (Some (Fin 1)) (Some (Fin 1))))) =
     [ScaleRebuilt, OriginCopied, ApplyCalled, Refreshed, Dispatched (Fin 1) (Fin 1)]
   \<and> \<not> jle (Fin 1) (jsub (Fin 1) (Fin 1))
   \<and> trace (wheeledR (\<lambda>x. x) 0 (Fin 10) (Fin 500, Fin 0)
            (animationFrame (exampleEngine 10 500 (Some (Fin 1)) (Some (Fin 10))))) =
     [ScaleRebuilt, OriginCopied, ApplyCalled, Refreshed, Dispatched (Fin 10) (Fin 10)]
   \<and> \<not> jle (Fin 1) (jsub (Fin 10) (Fin 10))
   \<and> trace (zoomedR (\<lambda>x. if x = 2 + 1 / 2 ^ 52 then 2 else x)
            \<lparr>tk = Fin 10, tx = Fin (- 500 / 2 ^ 52), ty = Fin 0\<rparr>
            (animationFrame (exampleEngine 10 500 (Some (Fin 1)) (Some (Fin 10))))) =
     [ScaleRebuilt, OriginCopied, ApplyCalled, Refreshed,
      Dispatched (Fin (1 + 1 / 2 ^ 52)) (Fin 2)]
   \<and> \<not> jle (Fin 1) (jsub (Fin 2) (Fin (1 + 1 / 2 ^ 52)))
   \<and> trace (zoomedR (\<lambda>x. x) \<lparr>tk = Fin 10, tx = Fin 250, ty = Fin 0\<rparr>
            (animationFrame (exampleEngine 10 500 (Some (Fin 1)) (Some (Fin 10))))) =
     [ScaleRebuilt, OriginCopied, ApplyCalled, Refreshed, Dispatched (Fin 1) (Fin (3 / 2))]
   \<and> \<not> jle (Fin 1) (jsub (Fin (3 / 2)) (Fin 1))
   \<and> zoomFactorR (\<lambda>x. x) (exampleEngine 0 500 (Some (Fin 1)) None) = NaN
   \<and> svg (animationFrame (exampleEngine 0 500 (Some (Fin 1)) None)) =
     Some [\<lparr>zoomProp = Some \<lparr>tk = NaN, tx = NaN, ty = NaN\<rparr>, listening = True\<rparr>]
   \<and> trace (wheeledR (\<lambda>x. x) 0 (Fin 2) (Fin 250, Fin 0)
            (animationFrame (exampleEngine 0 500 (Some (Fin 1)) None))) =
     [ScaleRebuilt, OriginCopied, ApplyCalled, Refreshed, Dispatched NaN NaN]
   \<and> \<not> jle (Fin 1) NaN"
  by (simp add: exampleEngine_value readyEngine_value)
    (simp add: wheeledR_def gestureTransformR_def constrainR_def gscale_def gtranslateR_def
      invertXR_def invertYR_def jor_def zoomedR_def rescaleXR_def scaleInvertR_def bimapR_def
      normalizeR_def interpolateNumberR_def displayEndR_def ttranslateR_def zoomFactorR_def
      jaddR_def jsubR_def jmulR_def jdivR_def jround_def
      mixin_defs d3_defs number_defs Let_def)

section \<open>The debounced application\<close>

lemma applyZoomTranslation_pending: "aboutToApply st \<Longrightarrow> applyZoomTranslation st = st"
  by (simp add: applyZoomTranslation_def)

lemma applyZoomTranslation_pow:
  "0 < n \<Longrightarrow>
   (applyZoomTranslation ^^ n) st =
     (if aboutToApply st then st
      else st\<lparr>aboutToApply := True, rafQueue := rafQueue st + 1\<rparr>)"
proof (induction n)
  case 0
  then show ?case by simp
next
  case (Suc n)
  show ?case
  proof (cases "n = 0")
    case True
    then show ?thesis by (simp add: applyZoomTranslation_def)
  next
    case False
    with Suc.IH show ?thesis by (simp add: applyZoomTranslation_def)
  qed
qed

lemma applyZoomTranslation_bound_calls:
  "applyCalls (applyZoomTranslation_bound st) = applyCalls st + 1"
  by (simp add: applyCalls_def applyZoomTranslation_bound_trace)

lemma applyCalls_upd:
  "applyCalls (st\<lparr>aboutToApply := a, rafQueue := q\<rparr>) = applyCalls st"
  by (simp add: applyCalls_def)

lemma queue_consistent_constructed:
  "rafQueue (constructed p) = (if aboutToApply (constructed p) then 1 else 0)"
  by (simp add: constructed_def)

lemma queue_consistent_request:
  "rafQueue st = (if aboutToApply st then 1 else 0) \<Longrightarrow>
   rafQueue (applyZoomTranslation st) = (if aboutToApply (applyZoomTranslation st) then 1 else 0)"
  by (simp add: applyZoomTranslation_def)

lemma queue_consistent_frame:
  assumes "rafQueue st = (if aboutToApply st then 1 else 0)"
  shows "rafQueue (animationFrame st) = (if aboutToApply (animationFrame st) then 1 else 0)"
proof (cases "aboutToApply st")
  case True
  with assms have "rafQueue st = 1" by simp
  then show ?thesis
    by (simp add: animationFrame_one applyZoomTranslation_bound_queue)
next
  case False
  with assms show ?thesis by (simp add: animationFrame_def)
qed

lemma queue_consistent_callbacks:
  assumes "rafQueue st = (if aboutToApply st then 1 else 0)"
  shows "rafQueue (connectedCallback st) = (if aboutToApply (connectedCallback st) then 1 else 0)"
    and "rafQueue (set_svg v st) = (if aboutToApply (set_svg v st) then 1 else 0)"
    and "rafQueue (attributeChangedCallback inherited name oldValue newValue st) =
      (if aboutToApply (attributeChangedCallback inherited name oldValue newValue st)
       then 1 else 0)"
    and "rafQueue (zoomed t st) = (if aboutToApply (zoomed t st) then 1 else 0)"
  using assms
  by (simp_all add: connectedCallback_value initZoom_def set_svg_def applyZoomTranslation_def
      attributeChangedCallback_def updateScaleDomain_value emit_def Let_def zoomed_keeps
      split: option.splits)

text \<open>
  Claim C5 (debounce coalescing). In a state where the pending flag and the frame queue
  agree (as they do after the constructor and after every method), \<open>n \<ge> 1\<close> calls of the
  debounced \<^verbatim>\<open>applyZoomTranslation\<close>, hence also every \<open>n \<ge> 2\<close>, leave exactly one callback
  pending and do not enter the bound method: they are the same as one call, the later
  ones being absorbed. The next animation frame enters the bound method exactly once and
  leaves nothing pending.
\<close>
theorem debounce_coalescing:
  assumes "rafQueue st = (if aboutToApply st then 1 else 0)" and "1 \<le> n"
  shows "(applyZoomTranslation ^^ n) st = applyZoomTranslation st
    \<and> rafQueue ((applyZoomTranslation ^^ n) st) = 1
    \<and> applyCalls ((applyZoomTranslation ^^ n) st) = applyCalls st
    \<and> animationFrame ((applyZoomTranslation ^^ n) st) =
        applyZoomTranslation_bound (st\<lparr>aboutToApply := False, rafQueue := 0\<rparr>)
    \<and> applyCalls (animationFrame ((applyZoomTranslation ^^ n) st)) = applyCalls st + 1
    \<and> rafQueue (animationFrame ((applyZoomTranslation ^^ n) st)) = 0"
proof -
  let ?st' = "(applyZoomTranslation ^^ n) st"
  from assms(2) have n: "0 < n" by simp
  have eq: "?st' = st\<lparr>aboutToApply := True, rafQueue := 1\<rparr>"
  proof (cases "aboutToApply st")
    case True
    with assms(1) have "rafQueue st = 1" by simp
    with True show ?thesis using applyZoomTranslation_pow [OF n, of st] by simp
  next
    case False
    with assms(1) have "rafQueue st = 0" by simp
    with False show ?thesis using applyZoomTranslation_pow [OF n, of st] by simp
  qed
  have q: "rafQueue ?st' = 1" by (simp add: eq)
  have c: "applyCalls ?st' = applyCalls st" by (simp add: eq applyCalls_upd)
  have "animationFrame ?st' =
      applyZoomTranslation_bound (?st'\<lparr>aboutToApply := False, rafQueue := 0\<rparr>)"
    by (rule animationFrame_one [OF q])
  also have "?st'\<lparr>aboutToApply := False, rafQueue := 0\<rparr> =
      st\<lparr>aboutToApply := False, rafQueue := 0\<rparr>"
    by (simp add: eq)
  finally have f: "animationFrame ?st' =
      applyZoomTranslation_bound (st\<lparr>aboutToApply := False, rafQueue := 0\<rparr>)" .
  have a: "applyCalls (animationFrame ?st') = applyCalls st + 1"
    by (simp only: f applyZoomTranslation_bound_calls applyCalls_upd)
  have r: "rafQueue (animationFrame ?st') = 0"
    by (simp add: f applyZoomTranslation_bound_queue)
  have o: "?st' = applyZoomTranslation st"
    using applyZoomTranslation_pow [OF n, of st] by (simp add: applyZoomTranslation_def)
  from o q c f a r show ?thesis by blast
qed

text \<open>Three calls on a connected component.\<close>
theorem debounce_coalescing_witness:
  "rafQueue ((applyZoomTranslation ^^ 3)
      (connectedCallback (constructed (exampleProps 10 500 None None)))) = 1
   \<and> applyCalls (animationFrame ((applyZoomTranslation ^^ 3)
      (connectedCallback (constructed (exampleProps 10 500 None None))))) = 1"
proof -
  let ?c = "connectedCallback (constructed (exampleProps 10 500 None None))"
  have q: "rafQueue ?c = (if aboutToApply ?c then 1 else 0)"
    by (simp add: connectedCallback_value initZoom_def constructed_def)
  have a: "applyCalls ?c = 0"
    by (simp add: applyCalls_def connectedCallback_value initZoom_def constructed_def)
  have n: "(1::nat) \<le> 3" by simp
  from debounce_coalescing [OF q n]
  have "rafQueue ((applyZoomTranslation ^^ 3) ?c) = 1
      \<and> applyCalls (animationFrame ((applyZoomTranslation ^^ 3) ?c)) = applyCalls ?c + 1"
    by blast
  then show ?thesis by (simp add: a)
qed

section \<open>Structural changes\<close>

lemma attributeChangedCallback_quiet:
  "applyCalls (attributeChangedCallback inherited name oldValue newValue st) = applyCalls st
   \<and> svg (attributeChangedCallback inherited name oldValue newValue st) = svg st"
  by (simp add: attributeChangedCallback_def updateScaleDomain_value emit_def
      applyZoomTranslation_def applyCalls_def Let_def)

lemma pre_connect_attribute:
  "zoom st = None \<Longrightarrow>
   attributeChangedCallback inherited name oldValue newValue st =
     st\<lparr>props := inherited (props st)\<rparr>"
  by (simp add: attributeChangedCallback_def)

text \<open>
  Claim C6 (order of a structural change), as the code has it. Once
  \<^verbatim>\<open>connectedCallback\<close> has created the zoom behaviour, when \<^verbatim>\<open>length\<close>,
  \<^verbatim>\<open>width\<close> or \<^verbatim>\<open>height\<close> changes to a value other than the old one (the string
  \<^verbatim>\<open>"null"\<close> counting as no value), \<^verbatim>\<open>attributeChangedCallback\<close> first rebuilds the
  scale from the new properties, then replaces the origin scale by a copy of that scale,
  and applies no transform itself: the surface is untouched and one frame callback is
  pending. The bound \<^verbatim>\<open>applyZoomTranslation\<close> is entered only in the next animation
  frame, after both, and sets the transform computed from the new properties against the
  new origin. \<^verbatim>\<open>connectedCallback\<close> follows the same order: it rebuilds the scale,
  copies it to the origin, and applies nothing. In no state at all does
  \<^verbatim>\<open>attributeChangedCallback\<close> itself enter the bound method or touch the surface.
\<close>
theorem structural_change_order:
  assumes "name \<in> set ATTRIBUTES_THAT_TRIGGER_REFRESH" and "zoom st = Some z"
    and "oldValue \<noteq> (if newValue = Some ''null'' then None else newValue)"
    and "rafQueue st = (if aboutToApply st then 1 else 0)"
  shows "trace (attributeChangedCallback inherited name oldValue newValue st) =
       trace st @ [ScaleRebuilt, OriginCopied]
     \<and> xScale (attributeChangedCallback inherited name oldValue newValue st) =
       Some (rebuiltScale (st\<lparr>props := inherited (props st)\<rparr>))
     \<and> originXScale (attributeChangedCallback inherited name oldValue newValue st) =
       Some (rebuiltScale (st\<lparr>props := inherited (props st)\<rparr>))
     \<and> svg (attributeChangedCallback inherited name oldValue newValue st) = svg st
     \<and> rafQueue (attributeChangedCallback inherited name oldValue newValue st) = 1
     \<and> trace (animationFrame (attributeChangedCallback inherited name oldValue newValue st)) =
       trace st @ [ScaleRebuilt, OriginCopied]
         @ (if svg st = None then [ApplyCalled] else [ApplyCalled, Refreshed])
     \<and> svg (animationFrame (attributeChangedCallback inherited name oldValue newValue st)) =
       map_option (map (\<lambda>n. n\<lparr>zoomProp := Some
          (zoomTransform (rebuiltScale (st\<lparr>props := inherited (props st)\<rparr>))
             (st\<lparr>props := inherited (props st)\<rparr>))\<rparr>)) (svg st)
     \<and> trace (connectedCallback st0) = trace st0 @ [ScaleRebuilt, OriginCopied]
     \<and> originXScale (connectedCallback st0) = Some (rebuiltScale st0)
     \<and> svg (connectedCallback st0) = svg st0
     \<and> applyCalls (attributeChangedCallback inherited' name' oldValue' newValue' st1) =
       applyCalls st1
     \<and> svg (attributeChangedCallback inherited' name' oldValue' newValue' st1) = svg st1"
proof -
  let ?new = "rebuiltScale (st\<lparr>props := inherited (props st)\<rparr>)"
  let ?st2 = "st\<lparr>props := inherited (props st), xScale := Some ?new,
      originXScale := Some ?new, trace := trace st @ [ScaleRebuilt, OriginCopied]\<rparr>"
  let ?st' = "attributeChangedCallback inherited name oldValue newValue st"
  have z: "zoom st \<noteq> None" using assms(2) by simp
  have v: "?st' = applyZoomTranslation ?st2"
    by (rule structural_change_value [OF assms(1) z assms(3)])
  have fields: "trace ?st' = trace st @ [ScaleRebuilt, OriginCopied]"
    "xScale ?st' = Some ?new" "originXScale ?st' = Some ?new" "svg ?st' = svg st"
    "zoom ?st' = Some z" "props ?st' = inherited (props st)"
    by (simp_all add: v applyZoomTranslation_def assms(2))
  have q: "rafQueue ?st' = 1"
    using assms(4) by (simp add: v applyZoomTranslation_def)
  let ?st3 = "?st'\<lparr>aboutToApply := False, rafQueue := 0\<rparr>"
  have f: "animationFrame ?st' = applyZoomTranslation_bound ?st3"
    by (rule animationFrame_one [OF q])
  have t: "trace (applyZoomTranslation_bound ?st3) =
      trace st @ [ScaleRebuilt, OriginCopied]
        @ (if svg st = None then [ApplyCalled] else [ApplyCalled, Refreshed])"
    by (simp add: applyZoomTranslation_bound_trace fields)
  have "svg (applyZoomTranslation_bound ?st3) =
      map_option (map (\<lambda>n. n\<lparr>zoomProp := Some (zoomTransform ?new ?st3)\<rparr>)) (svg ?st3)"
    by (rule applyZoomTranslation_bound_svg_any [where z = z]) (simp_all add: fields)
  moreover have "zoomTransform ?new ?st3 = zoomTransform ?new (st\<lparr>props := inherited (props st)\<rparr>)"
    by (simp add: zoomTransform_def zoomFactor_def zoomDx_def fields)
  ultimately have s: "svg (applyZoomTranslation_bound ?st3) =
      map_option (map (\<lambda>n. n\<lparr>zoomProp := Some
        (zoomTransform ?new (st\<lparr>props := inherited (props st)\<rparr>))\<rparr>)) (svg st)"
    by (simp add: fields)
  have c: "trace (connectedCallback st0) = trace st0 @ [ScaleRebuilt, OriginCopied]"
    "originXScale (connectedCallback st0) = Some (rebuiltScale st0)"
    "svg (connectedCallback st0) = svg st0"
    by (simp_all add: connectedCallback_value initZoom_def)
  have n: "applyCalls (attributeChangedCallback inherited' name' oldValue' newValue' st1) =
      applyCalls st1"
    "svg (attributeChangedCallback inherited' name' oldValue' newValue' st1) = svg st1"
    by (simp_all add: attributeChangedCallback_quiet)
  show ?thesis
    using fields(1-4) q t s c n by (simp only: f)
qed

text \<open>The length of a connected component with a surface changes from 10 to 20.\<close>
theorem structural_change_order_witness:
  "trace (animationFrame
      (attributeChangedCallback (\<lambda>p. p\<lparr>length' := Some (Fin 20)\<rparr>) ''length''
         (Some ''10'') (Some ''20'')
         (animationFrame (exampleEngine 10 500 (Some (Fin 1)) (Some (Fin 10)))))) =
     [ScaleRebuilt, OriginCopied, ApplyCalled, Refreshed,
      ScaleRebuilt, OriginCopied, ApplyCalled, Refreshed]
   \<and> originXScale
      (attributeChangedCallback (\<lambda>p. p\<lparr>length' := Some (Fin 20)\<rparr>) ''length''
         (Some ''10'') (Some ''20'')
         (animationFrame (exampleEngine 10 500 (Some (Fin 1)) (Some (Fin 10))))) =
     Some \<lparr>dom0 = Fin 1, dom1 = Fin 21, rng0 = Fin 0, rng1 = Fin 500\<rparr>"
  using structural_change_order
    [of "''length''" "animationFrame (exampleEngine 10 500 (Some (Fin 1)) (Some (Fin 10)))"
      "\<lparr>scaleExtent = (Fin 1, PInf), translateExtent = ((Fin 0, Fin 0), (Fin 500, Fin 0)),
        extent = ((Fin 0, Fin 0), (Fin 500, Fin 0))\<rparr>"
      "Some ''10''" "Some ''20''"
      "\<lambda>p. p\<lparr>length' := Some (Fin 20)\<rparr>"
      "constructed (exampleProps 10 500 None None)"]
  by (simp add: readyEngine_value ATTRIBUTES_THAT_TRIGGER_REFRESH_def rebuiltScale_def
      getWidthWithMargins_def exampleProps_def)

text \<open>
  Claim C6 as it is stated, for every change of a structural attribute, fails before the
  component is connected: \<^verbatim>\<open>attributeChangedCallback\<close> returns at its guard on the zoom
  behaviour, so a change of \<^verbatim>\<open>length\<close> from 10 to 20 only stores the new length; no
  scale is built and nothing is recorded.
\<close>
theorem structural_change_order_counterexample:
  "attributeChangedCallback (\<lambda>p. p\<lparr>length' := Some (Fin 20)\<rparr>) ''length''
      (Some ''10'') (Some ''20'') (constructed (exampleProps 10 500 None None)) =
     constructed (exampleProps 20 500 None None)
   \<and> xScale (constructed (exampleProps 20 500 None None)) = None
   \<and> trace (constructed (exampleProps 20 500 None None)) = []"
  by (simp add: pre_connect_attribute constructed_def exampleProps_def)

section \<open>The scale model\<close>

text \<open>
  Claim C7 (the scale model). \<^verbatim>\<open>_updateScaleDomain\<close> always stores a scale with the
  domain \<open>[1, length + 1]\<close>, where a missing, zero or NaN length counts as 0, and the range
  \<open>[0, width - margin-left - margin-right]\<close>; it rejects nothing. For a finite length
  \<open>l \<noteq> 0\<close> and a finite drawable width \<open>w\<close> the scale is the linear map that sends a
  position \<open>p\<close> to \<open>w * (p - 1) / l\<close>.
\<close>
theorem scale_model_construction:
  "xScale (updateScaleDomain st) =
       Some \<lparr>dom0 = Fin 1, dom1 = jadd (orZero (length' (props st))) (Fin 1), rng0 = Fin 0,
             rng1 = jsub (jsub (width (props st)) (margin_left (props st)))
                      (margin_right (props st))\<rparr>
   \<and> (length' (props st) = None \<or> length' (props st) = Some (Fin 0) \<longrightarrow>
        map_option dom1 (xScale (updateScaleDomain st)) = Some (Fin 1))
   \<and> (length' (props st) = Some (Fin l) \<and> l \<noteq> 0 \<and> getWidthWithMargins st = Fin w \<longrightarrow>
        xScale (updateScaleDomain st) =
          Some \<lparr>dom0 = Fin 1, dom1 = Fin (l + 1), rng0 = Fin 0, rng1 = Fin w\<rparr>
        \<and> map_option (\<lambda>s. scaleApply s (Fin p)) (xScale (updateScaleDomain st)) =
          Some (Fin (w * (p - 1) / l)))"
  by (auto simp add: updateScaleDomain_def emit_def getWidthWithMargins_def scaleApply_Fin)

text \<open>Length 1000 and width 500: position 251 is at pixel 125; without a length the
  domain is \<open>[1, 1]\<close>.\<close>
theorem scale_model_construction_witness:
  "xScale (updateScaleDomain (constructed (exampleProps 1000 500 None None))) =
     Some \<lparr>dom0 = Fin 1, dom1 = Fin 1001, rng0 = Fin 0, rng1 = Fin 500\<rparr>
   \<and> map_option (\<lambda>s. scaleApply s (Fin 251))
       (xScale (updateScaleDomain (constructed (exampleProps 1000 500 None None)))) =
     Some (Fin 125)
   \<and> map_option dom1
       (xScale (updateScaleDomain
          (constructed ((exampleProps 1000 500 None None)\<lparr>length' := None\<rparr>)))) =
     Some (Fin 1)"
proof -
  let ?c = "constructed (exampleProps 1000 500 None None)"
  let ?d = "constructed ((exampleProps 1000 500 None None)\<lparr>length' := None\<rparr>)"
  have c: "length' (props ?c) = Some (Fin 1000) \<and> (1000::real) \<noteq> 0
      \<and> getWidthWithMargins ?c = Fin 500"
    by (simp add: constructed_def exampleProps_def getWidthWithMargins_def)
  have d: "length' (props ?d) = None \<or> length' (props ?d) = Some (Fin 0)"
    by (simp add: constructed_def exampleProps_def)
  from scale_model_construction [of ?c 1000 500 251] c
  have "xScale (updateScaleDomain ?c) =
        Some \<lparr>dom0 = Fin 1, dom1 = Fin (1000 + 1), rng0 = Fin 0, rng1 = Fin 500\<rparr>
      \<and> map_option (\<lambda>s. scaleApply s (Fin 251)) (xScale (updateScaleDomain ?c)) =
        Some (Fin (500 * (251 - 1) / 1000))"
    by blast
  moreover from scale_model_construction [of ?d 1 1 1] d
  have "map_option dom1 (xScale (updateScaleDomain ?d)) = Some (Fin 1)"
    by blast
  ultimately show ?thesis by auto
qed

section \<open>The accessors\<close>

text \<open>
  Claim C8 (sentinels). Without a scale, \<^verbatim>\<open>getXFromSeqPosition\<close> and
  \<^verbatim>\<open>getSingleBaseWidth\<close> return \<open>- 1\<close>; with a scale \<open>s\<close>, the first returns the left
  margin plus \<open>s(position)\<close> and the second \<open>s(2) - s(1)\<close>.
\<close>
theorem sentinel_accessors:
  "(xScale st = None \<longrightarrow>
      getXFromSeqPosition st position = Fin (- 1) \<and> getSingleBaseWidth st = Fin (- 1))
   \<and> (xScale st = Some s \<longrightarrow>
      getXFromSeqPosition st position = jadd (margin_left (props st)) (scaleApply s position)
      \<and> getSingleBaseWidth st = jsub (scaleApply s (Fin 2)) (scaleApply s (Fin 1)))"
  by (simp add: getXFromSeqPosition_def getSingleBaseWidth_def)

text \<open>Before and after connecting a component of length 10 and width 500.\<close>
theorem sentinel_accessors_witness:
  "getXFromSeqPosition (constructed (exampleProps 10 500 None None)) (Fin 3) = Fin (- 1)
   \<and> getSingleBaseWidth (constructed (exampleProps 10 500 None None)) = Fin (- 1)
   \<and> getXFromSeqPosition (exampleEngine 10 500 None None) (Fin 3) = Fin 100
   \<and> getSingleBaseWidth (exampleEngine 10 500 None None) = Fin 50"
proof -
  let ?c = "constructed (exampleProps 10 500 None None)"
  let ?e = "exampleEngine 10 500 None None"
  let ?s = "\<lparr>dom0 = Fin 1, dom1 = Fin 11, rng0 = Fin 0, rng1 = Fin 500\<rparr>"
  have c: "xScale ?c = None" by (simp add: constructed_def)
  have e: "xScale ?e = Some ?s" and m: "margin_left (props ?e) = Fin 0"
    by (simp_all add: exampleEngine_value exampleProps_def)
  from sentinel_accessors [of ?c "Fin 3"] c
  have "getXFromSeqPosition ?c (Fin 3) = Fin (- 1) \<and> getSingleBaseWidth ?c = Fin (- 1)"
    by blast
  moreover from sentinel_accessors [of ?e "Fin 3" ?s] e
  have "getXFromSeqPosition ?e (Fin 3) = jadd (margin_left (props ?e)) (scaleApply ?s (Fin 3))
      \<and> getSingleBaseWidth ?e = jsub (scaleApply ?s (Fin 2)) (scaleApply ?s (Fin 1))"
    by blast
  ultimately show ?thesis by (simp add: m scaleApply_Fin)
qed

section \<open>Malformed and degenerate visible ranges\<close>

lemma zoomTransform_start_malformed:
  assumes "v = None \<or> v = Some NaN"
  shows "zoomTransform origin (st\<lparr>props := (props st)\<lparr>display_start := v\<rparr>\<rparr>) =
     zoomTransform origin (st\<lparr>props := (props st)\<lparr>display_start := Some (Fin 0)\<rparr>\<rparr>)"
  using assms by (auto simp add: zoomTransform_def zoomFactor_def zoomDx_def)

lemma zoomTransform_end_malformed:
  assumes "v = None \<or> v = Some NaN"
  shows "zoomTransform origin (st\<lparr>props := (props st)\<lparr>display_end := v\<rparr>\<rparr>) =
     zoomTransform origin (st\<lparr>props := (props st)\<lparr>display_end := Some (Fin 0)\<rparr>\<rparr>)"
  using assms by (auto simp add: zoomTransform_def zoomFactor_def zoomDx_def)

text \<open>
  Claim C9, as the code has it. A \<^verbatim>\<open>display-start\<close> or \<^verbatim>\<open>display-end\<close> that is
  missing or NaN is not reported: it is read as 0, and the surface ends up as it does for
  the value 0. Whatever the properties hold, the range is applied as it is computed:
  where there are an origin scale and a zoom behaviour, every element of the surface gets
  the transform \<^verbatim>\<open>zoomIdentity.scale(k).translate(dx, 0)\<close> with the factor \<open>k\<close> and
  the translation \<open>dx\<close> that \<^verbatim>\<open>applyZoomTranslation\<close> computes. Of the two only the
  factor is clamped, from below: it is at least 1 unless it is NaN. No \<^verbatim>\<open>change\<close>
  event is dispatched on the way.
\<close>
theorem malformed_range_not_reported:
  "(v = None \<or> v = Some NaN \<longrightarrow>
      svg (applyZoomTranslation_bound (st\<lparr>props := (props st)\<lparr>display_start := v\<rparr>\<rparr>)) =
      svg (applyZoomTranslation_bound
             (st\<lparr>props := (props st)\<lparr>display_start := Some (Fin 0)\<rparr>\<rparr>)))
   \<and> (v = None \<or> v = Some NaN \<longrightarrow>
        svg (applyZoomTranslation_bound (st\<lparr>props := (props st)\<lparr>display_end := v\<rparr>\<rparr>)) =
        svg (applyZoomTranslation_bound
               (st\<lparr>props := (props st)\<lparr>display_end := Some (Fin 0)\<rparr>\<rparr>)))
   \<and> svg (applyZoomTranslation_bound st) =
       (case (originXScale st, zoom st) of
          (Some origin, Some z) \<Rightarrow>
            map_option
              (map (\<lambda>n. n\<lparr>zoomProp :=
                 Some (ttranslate (tscale zoomIdentity (zoomFactor st)) (zoomDx origin st)
                         (Fin 0))\<rparr>))
              (svg st)
        | _ \<Rightarrow> svg st)
   \<and> (isNaN (zoomFactor st) \<or> jle (Fin 1) (zoomFactor st))
   \<and> dispatched (applyZoomTranslation_bound st) = dispatched st"
proof -
  have "svg (applyZoomTranslation_bound st) =
       (case (originXScale st, zoom st) of
          (Some origin, Some z) \<Rightarrow>
            map_option
              (map (\<lambda>n. n\<lparr>zoomProp :=
                 Some (ttranslate (tscale zoomIdentity (zoomFactor st)) (zoomDx origin st)
                         (Fin 0))\<rparr>))
              (svg st)
        | _ \<Rightarrow> svg st)"
    using applyZoomTranslation_bound_svg_cases [of st]
    by (simp add: zoomTransform_def split: option.splits)
  then show ?thesis
    using zoomFactor_clamped [of st] bound_dispatched [of st]
    by (auto simp add: applyZoomTranslation_bound_svg_cases zoomTransform_start_malformed
        zoomTransform_end_malformed split: option.splits)
qed

text \<open>A NaN start is applied like the start 0, a missing end like the end 0.\<close>
theorem malformed_range_not_reported_witness:
  "svg (applyZoomTranslation_bound (exampleEngine 1000 500 (Some NaN) (Some (Fin 10)))) =
     svg (applyZoomTranslation_bound (exampleEngine 1000 500 (Some (Fin 0)) (Some (Fin 10))))
   \<and> svg (applyZoomTranslation_bound (exampleEngine 1000 500 (Some (Fin 1)) None)) =
     svg (applyZoomTranslation_bound (exampleEngine 1000 500 (Some (Fin 1)) (Some (Fin 0))))"
proof -
  let ?e = "exampleEngine 1000 500 (Some NaN) (Some (Fin 10))"
  let ?f = "exampleEngine 1000 500 (Some (Fin 1)) None"
  have e: "?e\<lparr>props := (props ?e)\<lparr>display_start := Some NaN\<rparr>\<rparr> = ?e"
    "?e\<lparr>props := (props ?e)\<lparr>display_start := Some (Fin 0)\<rparr>\<rparr> =
      exampleEngine 1000 500 (Some (Fin 0)) (Some (Fin 10))"
    by (simp_all add: exampleEngine_value exampleProps_def)
  have f: "?f\<lparr>props := (props ?f)\<lparr>display_end := None\<rparr>\<rparr> = ?f"
    "?f\<lparr>props := (props ?f)\<lparr>display_end := Some (Fin 0)\<rparr>\<rparr> =
      exampleEngine 1000 500 (Some (Fin 1)) (Some (Fin 0))"
    by (simp_all add: exampleEngine_value exampleProps_def)
  from malformed_range_not_reported [of "Some NaN" ?e]
  have "svg (applyZoomTranslation_bound (?e\<lparr>props := (props ?e)\<lparr>display_start := Some NaN\<rparr>\<rparr>)) =
      svg (applyZoomTranslation_bound (?e\<lparr>props := (props ?e)\<lparr>display_start := Some (Fin 0)\<rparr>\<rparr>))"
    by blast
  moreover from malformed_range_not_reported [of None ?f]
  have "svg (applyZoomTranslation_bound (?f\<lparr>props := (props ?f)\<lparr>display_end := None\<rparr>\<rparr>)) =
      svg (applyZoomTranslation_bound (?f\<lparr>props := (props ?f)\<lparr>display_end := Some (Fin 0)\<rparr>\<rparr>))"
    by blast
  ultimately show ?thesis by (simp only: e f)
qed

text \<open>
  Claim C9 as it is stated fails in both halves. A malformed visible range is not
  reported: with a NaN \<^verbatim>\<open>display-start\<close> and no \<^verbatim>\<open>display-end\<close> on a component of
  length 1000 and width 500, the range is applied as \<open>{0, 0}\<close> (factor 1000, offset 500),
  and nothing is dispatched. A degenerate range is not clamped to a valid one: on a
  component of length 10 and width 500, the request \<open>{51, 60}\<close> beyond the sequence is
  applied as it is (factor 1, offset \<open>- 2500\<close>) and leaves the visible range
  \<open>{51, 10}\<close>, and the empty range \<open>{5, 4}\<close> is applied with an infinite factor, an
  infinite offset and a NaN offset in the other direction, and leaves the visible range
  \<open>{NaN, NaN}\<close>.
\<close>
theorem malformed_range_counterexample:
  "svg (applyZoomTranslation_bound (exampleEngine 1000 500 (Some NaN) None)) =
     Some [\<lparr>zoomProp = Some \<lparr>tk = Fin 1000, tx = Fin 500, ty = Fin 0\<rparr>, listening = True\<rparr>]
   \<and> dispatched (applyZoomTranslation_bound (exampleEngine 1000 500 (Some NaN) None)) = []
   \<and> svg (applyZoomTranslation_bound (exampleEngine 10 500 (Some (Fin 51)) (Some (Fin 60)))) =
     Some [\<lparr>zoomProp = Some \<lparr>tk = Fin 1, tx = Fin (- 2500), ty = Fin 0\<rparr>, listening = True\<rparr>]
   \<and> visibleRange
       (applyZoomTranslation_bound (exampleEngine 10 500 (Some (Fin 51)) (Some (Fin 60)))) =
     Some (Fin 51, Fin 10)
   \<and> svg (applyZoomTranslation_bound (exampleEngine 10 500 (Some (Fin 5)) (Some (Fin 4)))) =
     Some [\<lparr>zoomProp = Some \<lparr>tk = PInf, tx = NInf, ty = NaN\<rparr>, listening = True\<rparr>]
   \<and> visibleRange
       (applyZoomTranslation_bound (exampleEngine 10 500 (Some (Fin 5)) (Some (Fin 4)))) =
     Some (NaN, NaN)"
  by (simp add: exampleEngine_value)
    (simp add: visibleRange_def mixin_defs d3_defs number_defs dispatched_def Let_def)

section \<open>The setter of the rendering surface\<close>

text \<open>
  Claim C10 (the setter of \<^verbatim>\<open>svg\<close>). Assigning no surface, or assigning a surface
  while there is no zoom behaviour, changes nothing at all. With a surface \<open>sel\<close> and a
  zoom behaviour, the setter stores the surface with the zoom behaviour bound to each of
  its elements and requests a re-application: the pending flag is set, and a frame
  callback is added unless one was pending already. No transform is applied and nothing
  is dispatched by the setter itself.
\<close>
theorem svg_setter_frame:
  "(v = None \<or> zoom st = None \<longrightarrow> set_svg v st = st)
   \<and> (v = Some sel \<and> zoom st = Some z \<longrightarrow>
        set_svg v st = applyZoomTranslation (st\<lparr>svg := Some (map bindZoom sel)\<rparr>)
        \<and> svg (set_svg v st) = Some (map bindZoom sel)
        \<and> list_all listening (map bindZoom sel)
        \<and> aboutToApply (set_svg v st)
        \<and> rafQueue (set_svg v st) = (if aboutToApply st then rafQueue st else rafQueue st + 1)
        \<and> trace (set_svg v st) = trace st)"
  by (auto simp add: set_svg_def applyZoomTranslation_def bindZoom_def list_all_iff
      split: option.splits)

text \<open>A surface assigned before and after \<^verbatim>\<open>connectedCallback\<close>, and no surface
  assigned after it.\<close>
theorem svg_setter_frame_witness:
  "set_svg (Some [freshNode]) (constructed (exampleProps 10 500 None None)) =
     constructed (exampleProps 10 500 None None)
   \<and> set_svg None (connectedCallback (constructed (exampleProps 10 500 None None))) =
     connectedCallback (constructed (exampleProps 10 500 None None))
   \<and> svg (set_svg (Some [freshNode])
        (connectedCallback (constructed (exampleProps 10 500 None None)))) =
     Some [\<lparr>zoomProp = Some zoomIdentity, listening = True\<rparr>]
   \<and> rafQueue (set_svg (Some [freshNode])
        (connectedCallback (constructed (exampleProps 10 500 None None)))) = 1"
proof -
  let ?c = "constructed (exampleProps 10 500 None None)"
  let ?z = "\<lparr>scaleExtent = (Fin 1, PInf), translateExtent = ((Fin 0, Fin 0), (Fin 500, Fin 0)),
      extent = ((Fin 0, Fin 0), (Fin 500, Fin 0))\<rparr>"
  have c: "zoom ?c = None" by (simp add: constructed_def)
  have z: "zoom (connectedCallback ?c) = Some ?z"
    and q: "\<not> aboutToApply (connectedCallback ?c)" "rafQueue (connectedCallback ?c) = 0"
    by (simp_all add: connectedCallback_value initZoom_def constructed_def
        getWidthWithMargins_def exampleProps_def)
  from svg_setter_frame [of "Some [freshNode]" ?c] c
  have "set_svg (Some [freshNode]) ?c = ?c" by blast
  moreover from svg_setter_frame [of None "connectedCallback ?c"]
  have "set_svg None (connectedCallback ?c) = connectedCallback ?c" by blast
  moreover from svg_setter_frame [of "Some [freshNode]" "connectedCallback ?c" "[freshNode]" ?z] z
  have "svg (set_svg (Some [freshNode]) (connectedCallback ?c)) = Some (map bindZoom [freshNode])
      \<and> rafQueue (set_svg (Some [freshNode]) (connectedCallback ?c)) =
        (if aboutToApply (connectedCallback ?c) then rafQueue (connectedCallback ?c)
         else rafQueue (connectedCallback ?c) + 1)"
    by blast
  ultimately show ?thesis by (simp add: q bindZoom_def freshNode_def)
qed


end
